theory Spec2Isabelle
  imports Complex_Main "HOL-Library.Sublist" "HOL-Library.Log_Nat"
begin

section \<open>Data model (app/models/incident.py)\<close>

datatype IncidentStatus = OPEN | IN_PROGRESS | RESOLVED | CLOSED

datatype Severity = P1 | P2 | P3

datatype Category =
  CONFIGURATION_ISSUE | DATA_ISSUE | INTEGRATION_FAILURE | SECURITY_ACCESS | UNKNOWN

datatype ERPModule = AP | AR | GL | INVENTORY | HR | PAYROLL

text \<open>\<open>PROD\<close> is reserved notation of HOL: the members carry the prefix \<open>ENV\<close>.\<close>

datatype Environment = ENV_PROD | ENV_TEST

text \<open>
  Text is a list of characters; \<open>len\<close> is \<^const>\<open>length\<close>. Time stamps
  (\<open>datetime\<close>) are integers, in microseconds. The identifier field \<open>id\<close> of the
  source is written \<open>id'\<close>. \<open>IncidentResponse\<close> is declared first, so that an
  unqualified \<open>title\<close> or \<open>description\<close> is the field of \<open>IncidentCreate\<close>.
\<close>

record IncidentResponse =
  id' :: string
  title :: string
  description :: string
  erp_module :: string
  environment :: string
  business_unit :: string
  severity :: Severity
  category :: Category
  status :: IncidentStatus
  created_at :: int
  updated_at :: int
  summary :: "string option"
  suggested_action :: "string option"

record IncidentCreate =
  title :: string
  description :: string
  erp_module :: ERPModule
  environment :: Environment
  business_unit :: string

section \<open>Strings as Python has them\<close>

text \<open>
  \<open>str.lower()\<close> on code points below 256: the ASCII capitals and the Latin-1
  capitals (192 to 222, the multiplication sign 215 apart) move up by 32.
\<close>

definition lower_char :: "char \<Rightarrow> char" where
  "lower_char c =
     (let n = (of_char c :: nat) in
      if (65 \<le> n \<and> n \<le> 90) \<or> (192 \<le> n \<and> n \<le> 222 \<and> n \<noteq> 215)
      then char_of (n + 32) else c)"

definition lower :: "string \<Rightarrow> string" where
  "lower text = map lower_char text"

text \<open>\<open>keyword in text\<close>: the keyword occurs as a contiguous run of the text.\<close>

fun str_in :: "string \<Rightarrow> string \<Rightarrow> bool" where
  "str_in keyword [] = (keyword = [])"
| "str_in keyword (c # cs) = (prefix keyword (c # cs) \<or> str_in keyword cs)"

text \<open>
  \<open>text.split(sep)\<close> for a one-character separator: the pieces between the
  separators, never an empty list. \<open>split_acc\<close> carries the piece being read.
\<close>

fun split_acc :: "char \<Rightarrow> string \<Rightarrow> string \<Rightarrow> string list" where
  "split_acc sep piece [] = [piece]"
| "split_acc sep piece (c # cs) =
     (if c = sep then piece # split_acc sep [] cs else split_acc sep (piece @ [c]) cs)"

definition split :: "string \<Rightarrow> char \<Rightarrow> string list" where
  "split text sep = split_acc sep [] text"

text \<open>
  \<open>str.isspace\<close> on code points below 256: tab to carriage return (9 to 13), the
  separators 28 to 31, the space, NEL (133) and the no-break space (160).
  \<open>strip()\<close> drops them from both ends.
\<close>

definition isspace :: "char \<Rightarrow> bool" where
  "isspace c =
     (let n = (of_char c :: nat) in
      (9 \<le> n \<and> n \<le> 13) \<or> (28 \<le> n \<and> n \<le> 32) \<or> n = 133 \<or> n = 160)"

definition strip :: "string \<Rightarrow> string" where
  "strip text = rev (dropWhile isspace (rev (dropWhile isspace text)))"

section \<open>Rule classifier (app/services/enrichment_service.py)\<close>

definition P1_KEYWORDS :: "string list" where
  "P1_KEYWORDS =
     [''critical'', ''down'', ''outage'', ''stuck'', ''blocked'', ''cannot process'',
      ''complete failure'', ''system down'', ''not working'', ''broken'',
      ''urgent'', ''emergency'', ''production down'', ''all users affected'']"

definition P2_KEYWORDS :: "string list" where
  "P2_KEYWORDS =
     [''slow'', ''delay'', ''performance'', ''lagging'', ''timeout'', ''intermittent'',
      ''some users'', ''degraded'', ''partial'', ''reduced functionality'']"

text \<open>
  The dictionary \<open>CATEGORY_KEYWORDS\<close>, in its insertion order, which is the order
  \<open>items()\<close> iterates in.
\<close>

definition CATEGORY_KEYWORDS :: "(Category \<times> string list) list" where
  "CATEGORY_KEYWORDS =
     [(INTEGRATION_FAILURE,
        [''integration'', ''api'', ''webhook'', ''connection'', ''sync'', ''import'',
         ''export'', ''interface'', ''endpoint'', ''service'', ''external system'']),
      (SECURITY_ACCESS,
        [''access'', ''permission'', ''authentication'', ''authorization'', ''login'',
         ''password'', ''credential'', ''security'', ''unauthorized'', ''forbidden'',
         ''user cannot'', ''locked out'', ''access denied'']),
      (DATA_ISSUE,
        [''data'', ''duplicate'', ''missing'', ''incorrect'', ''wrong'', ''corrupt'',
         ''invalid'', ''error in data'', ''data mismatch'', ''record'', ''transaction'']),
      (CONFIGURATION_ISSUE,
        [''configuration'', ''config'', ''setting'', ''setup'', ''parameter'',
         ''misconfigured'', ''wrong setting'', ''incorrect config''])]"

definition normalize_text :: "string \<Rightarrow> string" where
  "normalize_text text = lower text"

text \<open>\<open>for keyword in keywords: if keyword in normalized: return ...\<close>\<close>

fun keyword_hit :: "string list \<Rightarrow> string \<Rightarrow> bool" where
  "keyword_hit [] normalized = False"
| "keyword_hit (keyword # keywords) normalized =
     (if str_in keyword normalized then True else keyword_hit keywords normalized)"

definition determine_severity :: "IncidentCreate \<Rightarrow> Severity" where
  "determine_severity incident =
     (let combined_text = title incident @ '' '' @ description incident;
          normalized = normalize_text combined_text
      in if keyword_hit P1_KEYWORDS normalized then P1
         else if keyword_hit P2_KEYWORDS normalized then P2
         else P3)"

text \<open>The outer loop of \<open>determine_category\<close> over the dictionary's items.\<close>

fun scan_categories :: "(Category \<times> string list) list \<Rightarrow> string \<Rightarrow> Category" where
  "scan_categories [] normalized = UNKNOWN"
| "scan_categories ((cat, keywords) # items) normalized =
     (if keyword_hit keywords normalized then cat
      else scan_categories items normalized)"

definition determine_category :: "IncidentCreate \<Rightarrow> Category" where
  "determine_category incident =
     (let combined_text = title incident @ '' '' @ description incident;
          normalized = normalize_text combined_text
      in scan_categories CATEGORY_KEYWORDS normalized)"

definition generate_summary :: "IncidentCreate \<Rightarrow> string" where
  "generate_summary incident =
     (let description_first_sentence = strip (hd (split (description incident) CHR ''.''));
          description_first_sentence =
            (if length description_first_sentence > 100
             then take 97 description_first_sentence @ ''...''
             else description_first_sentence)
      in title incident @ '': '' @ description_first_sentence)"

definition suggest_action :: "IncidentCreate \<Rightarrow> Category \<Rightarrow> Severity \<Rightarrow> string" where
  "suggest_action incident cat sev =
     (if sev = P1 then ''Immediate escalation required. Contact on-call engineer.''
      else if cat = INTEGRATION_FAILURE
        then ''Check integration logs and verify external system connectivity.''
      else if cat = SECURITY_ACCESS
        then ''Review user permissions and verify access configuration.''
      else if cat = DATA_ISSUE
        then ''Investigate data integrity and verify transaction logs.''
      else if cat = CONFIGURATION_ISSUE
        then ''Review system configuration settings and compare with baseline.''
      else ''Review incident details and assign to appropriate team.'')"

section \<open>Errors, the world outside and the state\<close>

text \<open>
  A raised exception is a value: a function that can raise returns \<open>error + 'a\<close>,
  \<open>Inl\<close> the exception. Only exceptions below \<open>Exception\<close> are modelled (not an
  interrupt or an exit of the interpreter). An exception carries its one argument: a
  message, and for \<open>KeyError\<close> the key that was not found.

  \<open>repr\<close> of a string (code points below 256): in single quotes, or in double quotes
  when the string has a single quote and no double quote; the quote used and the
  backslash are written after a backslash; tab, newline and carriage return are a
  backslash and the letter t, n or r; every other character that is not printable is
  a backslash, the letter x and two hexadecimal digits.
  \<open>str_of\<close> is \<open>str(e)\<close>: the message, and for \<open>KeyError\<close> the \<open>repr\<close> of the key.
\<close>

datatype error = RuntimeError string | ValueError string | KeyError string | Exception string

definition hex2 :: "nat \<Rightarrow> string" where
  "hex2 n = [''0123456789abcdef'' ! (n div 16), ''0123456789abcdef'' ! (n mod 16)]"

definition isprintable :: "char \<Rightarrow> bool" where
  "isprintable c =
     (let n = of_char c :: nat
      in \<not> (n < 32 \<or> (127 \<le> n \<and> n \<le> 160) \<or> n = 173))"

definition repr_char :: "char \<Rightarrow> char \<Rightarrow> string" where
  "repr_char quote c =
     (if c = quote \<or> c = CHR 0x5C then [CHR 0x5C, c]
      else if c = CHR 0x09 then [CHR 0x5C, CHR ''t'']
      else if c = CHR 0x0A then [CHR 0x5C, CHR ''n'']
      else if c = CHR 0x0D then [CHR 0x5C, CHR ''r'']
      else if isprintable c then [c]
      else [CHR 0x5C, CHR ''x''] @ hex2 (of_char c))"

definition repr :: "string \<Rightarrow> string" where
  "repr s =
     (let quote = (if CHR 0x27 \<in> set s \<and> CHR 0x22 \<notin> set s then CHR 0x22 else CHR 0x27)
      in [quote] @ concat (map (repr_char quote) s) @ [quote])"

fun str_of :: "error \<Rightarrow> string" where
  "str_of (RuntimeError m) = m"
| "str_of (ValueError m) = m"
| "str_of (KeyError k) = repr k"
| "str_of (Exception m) = m"

type_synonym embedding = "real list"

type_synonym Metadata = "(string \<times> string) list"

text \<open>
  Similarity scores are floats in the source and real numbers here; the threshold
  \<open>0.7\<close> is the number 7/10.

  A float is an IEEE 754 double, and a finite double is the real number it denotes.
  The sum of two floats is the double nearest to the sum of the two numbers, the one
  with an even significand when two are equally near: \<open>float_add\<close>. For a positive
  number \<open>a\<close>, \<open>exponent a\<close> is the integer \<open>e\<close> with \<open>2^e \<le> a < 2^(e+1)\<close> (found from
  the number of binary digits of the integer part of \<open>a\<close>, or of \<open>1/a\<close>), and \<open>ulp a\<close>
  is the distance between the doubles around \<open>a\<close>: a significand has 53 binary digits,
  and below \<open>2^-1022\<close> the doubles are \<open>2^-1074\<close> apart. Infinities and NaN are not
  modelled: the numbers added are similarity scores, of magnitude at most 1 up to
  rounding, and their sums stay far below the greatest double.
\<close>

definition exponent :: "real \<Rightarrow> int" where
  "exponent a = (if 1 \<le> a then bitlen \<lfloor>a\<rfloor> - 1 else - bitlen (\<lceil>1 / a\<rceil> - 1))"

definition ulp :: "real \<Rightarrow> real" where
  "ulp a = 2 powi (max (exponent a) (- 1022) - 52)"

definition round_half_even :: "real \<Rightarrow> int" where
  "round_half_even m =
     (let f = \<lfloor>m\<rfloor>; r = m - of_int f
      in if r < 1 / 2 then f else if 1 / 2 < r then f + 1 else if even f then f else f + 1)"

definition round_double :: "real \<Rightarrow> real" where
  "round_double x =
     (if x = 0 then 0
      else (let u = ulp \<bar>x\<bar> in sgn x * of_int (round_half_even (\<bar>x\<bar> / u)) * u))"

definition float_add :: "real \<Rightarrow> real \<Rightarrow> real" where
  "float_add x y = round_double (x + y)"

text \<open>
  The state every operation passes on. The first four fields are the fields of
  \<open>InMemoryVectorRepository\<close>. \<open>world\<close> is everything outside the process (the
  incident store, the providers, the clock), of any type \<open>'w\<close>. \<open>list_all_calls\<close>
  is a ghost field: the calls \<open>incident_repo.list_all(limit, status)\<close> made so far.
\<close>

record 'w state =
  embeddings :: "string \<rightharpoonup> embedding"
  metadata :: "string \<rightharpoonup> Metadata"
  resolved_incidents_cache :: "IncidentResponse list option"
  cache_timestamp :: "int option"
  world :: 'w
  list_all_calls :: "(int \<times> string) list"

text \<open>
  What the code is configured with and calls out to:
  \<^item> \<open>rag_force_all\<close>, \<open>rag_max_similar_incidents\<close>: the settings read;
  \<^item> \<open>datetime_now\<close>: the clock, in microseconds;
  \<^item> \<open>incident_repo_list_all\<close>: \<open>incident_repo.list_all(limit, status)\<close>, its list of incidents or
    the exception it raises, and the world after the call;
  \<^item> \<open>embedding_client\<close>: \<open>client.embeddings.create(...)\<close> down to
    \<open>.data[0].embedding\<close>, \<open>None\<close> when no client was built;
  \<^item> \<open>cosine\<close>: scikit-learn's \<open>cosine_similarity\<close> of the query and one candidate,
    or the exception its validation raises (the call on the whole matrix raises when
    one row does);
  \<^item> \<open>llm_client\<close>: the chat completion of \<open>_classify_with_llm\<close> with prompt and
    parsing, \<open>None\<close> when no client was built;
  \<^item> \<open>round3\<close>: \<open>round(score, 3)\<close> on floats;
  \<^item> \<open>set_order\<close>: the order in which \<open>set(actions)\<close> is iterated (the hash order
    of the strings);
  \<^item> \<open>argsort_ties\<close>: where \<open>np.argsort\<close>, called with its default sort kind, which
    is not stable, puts an index among the indices of equal value: a rank for each
    index of the array sorted, the lower rank first;
  \<^item> \<open>print\<close>: \<open>print(message)\<close>, which writes to the standard output and raises
    when the write fails (\<open>ValueError\<close> on a closed stream, \<open>UnicodeEncodeError\<close> on
    a character the stream's encoding does not have, \<open>OSError\<close>).
\<close>

record 'w Env =
  rag_force_all :: bool
  rag_max_similar_incidents :: int
  datetime_now :: "'w \<Rightarrow> int"
  incident_repo_list_all ::
    "int \<Rightarrow> string \<Rightarrow> 'w \<Rightarrow> (error + IncidentResponse list) \<times> 'w"
  embedding_client :: "(string \<Rightarrow> 'w \<Rightarrow> (error + embedding) \<times> 'w) option"
  cosine :: "embedding \<Rightarrow> embedding \<Rightarrow> error + real"
  llm_client ::
    "(IncidentCreate \<Rightarrow> (IncidentResponse \<times> real) list \<Rightarrow> 'w
        \<Rightarrow> (error + Severity \<times> Category) \<times> 'w) option"
  round3 :: "real \<Rightarrow> real"
  set_order :: "string list \<Rightarrow> string list"
  argsort_ties :: "real list \<Rightarrow> nat \<Rightarrow> nat"
  print :: "string \<Rightarrow> 'w \<Rightarrow> (error + unit) \<times> 'w"

section \<open>Similarity index (app/repositories/vector_repository.py)\<close>

text \<open>\<open>__init__\<close>: nothing stored, no cache.\<close>

definition init :: "'w \<Rightarrow> 'w state" where
  "init w =
     \<lparr>embeddings = Map.empty, metadata = Map.empty, resolved_incidents_cache = None,
      cache_timestamp = None, world = w, list_all_calls = []\<rparr>"

text \<open>\<open>timedelta(minutes=5)\<close>, in microseconds.\<close>

definition cache_ttl :: int where
  "cache_ttl = 5 * 60 * 1000000"

definition add_embedding :: "string \<Rightarrow> embedding \<Rightarrow> Metadata \<Rightarrow> 'w state \<Rightarrow> 'w state" where
  "add_embedding incident_id emb md s =
     s\<lparr>embeddings := (embeddings s)(incident_id \<mapsto> emb),
       metadata := (metadata s)(incident_id \<mapsto> md),
       resolved_incidents_cache := None\<rparr>"

definition get_embedding :: "string \<Rightarrow> 'w state \<Rightarrow> embedding option" where
  "get_embedding incident_id s = embeddings s incident_id"

text \<open>
  \<open>d.pop(key)\<close> and \<open>d.pop(key, default)\<close>: the value removed and the dictionary
  left. Without a default (\<open>None\<close> as third argument here) a missing key raises
  \<open>KeyError\<close>; with one (\<open>Some\<close>) the default is returned and nothing changes.
\<close>

definition pop ::
  "(string \<rightharpoonup> 'v) \<Rightarrow> string \<Rightarrow> 'v option option
     \<Rightarrow> error + 'v option \<times> (string \<rightharpoonup> 'v)" where
  "pop d key dflt =
     (case d key of
        Some v \<Rightarrow> Inr (Some v, d(key := None))
      | None \<Rightarrow> (case dflt of None \<Rightarrow> Inl (KeyError key) | Some x \<Rightarrow> Inr (x, d)))"

definition remove_embedding :: "string \<Rightarrow> 'w state \<Rightarrow> (error + unit) \<times> 'w state" where
  "remove_embedding incident_id s =
     (case pop (embeddings s) incident_id (Some None) of
        Inl e \<Rightarrow> (Inl e, s)
      | Inr (removed, embs) \<Rightarrow>
          (case pop (metadata s) incident_id (Some None) of
             Inl e \<Rightarrow> (Inl e, s\<lparr>embeddings := embs\<rparr>)
           | Inr (removed_md, md) \<Rightarrow>
               (Inr (),
                s\<lparr>embeddings := embs, metadata := md, resolved_incidents_cache := None\<rparr>)))"

text \<open>The call of \<open>incident_repo.list_all\<close>, recorded in the ghost field.\<close>

definition call_list_all ::
  "'w Env \<Rightarrow> int \<Rightarrow> string \<Rightarrow> 'w state \<Rightarrow> (error + IncidentResponse list) \<times> 'w state" where
  "call_list_all env limit status_filter s =
     (case incident_repo_list_all env limit status_filter (world s) of
        (r, w') \<Rightarrow>
          (r, s\<lparr>world := w', list_all_calls := list_all_calls s @ [(limit, status_filter)]\<rparr>))"

definition get_resolved_incidents ::
  "'w Env \<Rightarrow> 'w state \<Rightarrow> (error + IncidentResponse list) \<times> 'w state" where
  "get_resolved_incidents env s =
     (if resolved_incidents_cache s \<noteq> None \<and> cache_timestamp s \<noteq> None
         \<and> datetime_now env (world s) - the (cache_timestamp s) < cache_ttl
      then (Inr (the (resolved_incidents_cache s)), s)
      else
        (case call_list_all env 10000 ''resolved'' s of
           (Inl e, s1) \<Rightarrow> (Inl e, s1)
         | (Inr resolved, s1) \<Rightarrow>
             (let incidents_with_embeddings =
                    filter (\<lambda>inc. embeddings s1 (id' inc) \<noteq> None) resolved
              in (Inr incidents_with_embeddings,
                  s1\<lparr>resolved_incidents_cache := Some incidents_with_embeddings,
                     cache_timestamp := Some (datetime_now env (world s1))\<rparr>))))"

text \<open>
  \<open>filters.get("status", "resolved") if filters else "resolved"\<close>: a dictionary is an
  association list, and \<open>None\<close> and the empty dictionary are both false.
\<close>

definition status_filter_of :: "(string \<times> string) list option \<Rightarrow> string" where
  "status_filter_of filters =
     (case filters of
        None \<Rightarrow> ''resolved''
      | Some d \<Rightarrow>
          (if d = [] then ''resolved''
           else (case map_of d ''status'' of None \<Rightarrow> ''resolved'' | Some v \<Rightarrow> v)))"

text \<open>Lines 139 to 151 of \<open>find_similar\<close>: the candidates.\<close>

definition get_candidates ::
  "'w Env \<Rightarrow> (string \<times> string) list option \<Rightarrow> 'w state
     \<Rightarrow> (error + IncidentResponse list) \<times> 'w state" where
  "get_candidates env filters s =
     (let status_filter = status_filter_of filters in
      if status_filter = ''resolved'' then get_resolved_incidents env s
      else
        (case call_list_all env 10000 status_filter s of
           (Inl e, s1) \<Rightarrow> (Inl e, s1)
         | (Inr candidates, s1) \<Rightarrow>
             (Inr (filter (\<lambda>inc. embeddings s1 (id' inc) \<noteq> None) candidates), s1)))"

text \<open>
  \<open>cosine_similarity(query_vector, candidate_vectors)[0]\<close>: one score for each
  candidate, or the first exception.
\<close>

fun cosine_similarity :: "'w Env \<Rightarrow> embedding \<Rightarrow> embedding list \<Rightarrow> error + real list" where
  "cosine_similarity env q [] = Inr []"
| "cosine_similarity env q (v # vs) =
     (case cosine env q v of
        Inl e \<Rightarrow> Inl e
      | Inr x \<Rightarrow> (case cosine_similarity env q vs of Inl e \<Rightarrow> Inl e | Inr xs \<Rightarrow> Inr (x # xs)))"

text \<open>
  \<open>np.argsort\<close>: the indices in ascending order of their values. The default sort
  kind is not stable: the order of the indices of equal values is NumPy's, given by
  \<open>argsort_ties\<close> (indices of equal value and equal rank are in index order). The
  indices are put in the order of their ranks, then sorted by value with a sort that
  keeps that order among equal values; every ascending arrangement of the indices is
  the result for some ranks (\<open>argsort_any_order\<close> below).
\<close>

definition argsort :: "'w Env \<Rightarrow> real list \<Rightarrow> nat list" where
  "argsort env similarities =
     sort_key (\<lambda>i. similarities ! i)
       (sort_key (argsort_ties env similarities) [0..<length similarities])"

definition min_similarity :: real where
  "min_similarity = 7 / 10"

text \<open>The loop over \<open>similar_indices\<close> that fills \<open>results\<close>.\<close>

fun collect_results ::
  "real list \<Rightarrow> IncidentResponse list \<Rightarrow> int \<Rightarrow> nat list
     \<Rightarrow> (IncidentResponse \<times> real) list \<Rightarrow> (IncidentResponse \<times> real) list" where
  "collect_results similarities candidate_incidents limit [] results = results"
| "collect_results similarities candidate_incidents limit (idx # similar_indices) results =
     (if similarities ! idx \<ge> min_similarity \<and> int (length results) < limit
      then collect_results similarities candidate_incidents limit similar_indices
             (results @ [(candidate_incidents ! idx, similarities ! idx)])
      else collect_results similarities candidate_incidents limit similar_indices results)"

text \<open>
  Lines 153 to 185 of \<open>find_similar\<close>: from the candidates to the results. The loop
  over the candidates keeps those with an embedding, as \<open>filter\<close> does.
\<close>

definition rank_candidates ::
  "'w Env \<Rightarrow> (string \<rightharpoonup> embedding) \<Rightarrow> embedding \<Rightarrow> int \<Rightarrow> IncidentResponse list
     \<Rightarrow> error + (IncidentResponse \<times> real) list" where
  "rank_candidates env embs query_embedding limit candidates =
     (if candidates = [] then Inr []
      else
        (let candidate_incidents = filter (\<lambda>inc. embs (id' inc) \<noteq> None) candidates;
             candidate_embeddings = map (\<lambda>inc. the (embs (id' inc))) candidate_incidents
         in if candidate_embeddings = [] then Inr []
            else
              (case cosine_similarity env query_embedding candidate_embeddings of
                 Inl e \<Rightarrow> Inl e
               | Inr similarities \<Rightarrow>
                   (let similar_indices = rev (argsort env similarities)
                    in Inr (collect_results similarities candidate_incidents limit
                              similar_indices [])))))"

definition find_similar ::
  "'w Env \<Rightarrow> embedding \<Rightarrow> int \<Rightarrow> (string \<times> string) list option \<Rightarrow> 'w state
     \<Rightarrow> (error + (IncidentResponse \<times> real) list) \<times> 'w state" where
  "find_similar env query_embedding limit filters s =
     (case get_candidates env filters s of
        (Inl e, s1) \<Rightarrow> (Inl e, s1)
      | (Inr candidates, s1) \<Rightarrow>
          (rank_candidates env (embeddings s1) query_embedding limit candidates, s1))"

section \<open>Enrichment with retrieval (app/services/rag_enrichment_service.py)\<close>

text \<open>
  The dictionary \<open>rule_result\<close>, and the dictionary \<open>enrich_incident\<close> returns, which
  has two keys more. The fields of \<open>IncidentResponse\<close> of the same names are written
  with their record's name from here on. An entry of \<open>similar_incidents\<close> has the keys
  \<open>id\<close>, \<open>title\<close>, \<open>category\<close>, \<open>severity\<close> (here with the prefix \<open>ref\<close>) and
  \<open>similarity_score\<close>.
\<close>

record RuleResult =
  severity :: Severity
  category :: Category
  summary :: string
  suggested_action :: string

record SimilarIncident =
  ref_id :: string
  ref_title :: string
  ref_category :: string
  ref_severity :: string
  similarity_score :: real

record EnrichmentResult = RuleResult +
  enrichment_method :: string
  similar_incidents :: "SimilarIncident list"

text \<open>The \<open>value\<close> of an enumeration member.\<close>

fun severity_value :: "Severity \<Rightarrow> string" where
  "severity_value P1 = ''P1''"
| "severity_value P2 = ''P2''"
| "severity_value P3 = ''P3''"

fun category_value :: "Category \<Rightarrow> string" where
  "category_value CONFIGURATION_ISSUE = ''Configuration Issue''"
| "category_value DATA_ISSUE = ''Data Issue''"
| "category_value INTEGRATION_FAILURE = ''Integration Failure''"
| "category_value SECURITY_ACCESS = ''Security / Access''"
| "category_value UNKNOWN = ''Unknown''"

text \<open>The decimal digits of a number, as an f-string writes \<open>len(...)\<close>.\<close>

fun str_nat :: "nat \<Rightarrow> string" where
  "str_nat n =
     (if n < 10 then [char_of (48 + n)]
      else str_nat (n div 10) @ [char_of (48 + n mod 10)])"

text \<open>
  \<open>max(xs, key=...)\<close>: the first of the greatest elements (a later element replaces
  the best so far only when its key is strictly greater); \<open>ValueError\<close> on an empty
  sequence.
\<close>

fun max_from :: "('a \<Rightarrow> 'b::linorder) \<Rightarrow> 'a \<Rightarrow> 'a list \<Rightarrow> 'a" where
  "max_from key best [] = best"
| "max_from key best (x # xs) =
     (if key x > key best then max_from key x xs else max_from key best xs)"

definition py_max :: "'a list \<Rightarrow> ('a \<Rightarrow> 'b::linorder) \<Rightarrow> error + 'a" where
  "py_max xs key =
     (case xs of
        [] \<Rightarrow> Inl (ValueError ''max() arg is an empty sequence'')
      | x # rest \<Rightarrow> Inr (max_from key x rest))"

text \<open>
  \<open>counts[k] = counts.get(k, 0) + weight\<close> on a dictionary, kept as the list of its
  items in insertion order: a key that is there keeps its place, a new key goes last.
  The weights are floats and \<open>+\<close> is the addition of floats.
\<close>

fun dict_add :: "('k \<times> real) list \<Rightarrow> 'k \<Rightarrow> real \<Rightarrow> ('k \<times> real) list" where
  "dict_add [] k weight = [(k, float_add 0 weight)]"
| "dict_add ((k', v) # items) k weight =
     (if k' = k then (k', float_add v weight) # items
      else (k', v) # dict_add items k weight)"

text \<open>The loop of \<open>_classify_by_majority_vote\<close> over the neighbours.\<close>

fun count_votes ::
  "(IncidentResponse \<times> real) list \<Rightarrow> (Severity \<times> real) list \<Rightarrow> (Category \<times> real) list
     \<Rightarrow> (Severity \<times> real) list \<times> (Category \<times> real) list" where
  "count_votes [] severity_counts category_counts = (severity_counts, category_counts)"
| "count_votes ((incident, score) # rest) severity_counts category_counts =
     count_votes rest
       (dict_add severity_counts (IncidentResponse.severity incident) score)
       (dict_add category_counts (IncidentResponse.category incident) score)"

definition classify_by_majority_vote ::
  "(IncidentResponse \<times> real) list \<Rightarrow> RuleResult \<Rightarrow> error + Severity \<times> Category" where
  "classify_by_majority_vote similar rule_result =
     (if similar = [] then Inr (severity rule_result, category rule_result)
      else
        (case count_votes similar [] [] of
           (severity_counts, category_counts) \<Rightarrow>
             (case py_max severity_counts snd of
                Inl e \<Rightarrow> Inl e
              | Inr sev_item \<Rightarrow>
                  (case py_max category_counts snd of
                     Inl e \<Rightarrow> Inl e
                   | Inr cat_item \<Rightarrow> Inr (fst sev_item, fst cat_item)))))"

text \<open>\<open>if inc.suggested_action\<close>: neither \<open>None\<close> nor the empty string.\<close>

definition has_action :: "IncidentResponse \<Rightarrow> bool" where
  "has_action inc =
     (case IncidentResponse.suggested_action inc of None \<Rightarrow> False | Some a \<Rightarrow> a \<noteq> [])"

definition generate_action_from_similar ::
  "'w Env \<Rightarrow> Severity \<Rightarrow> Category \<Rightarrow> (IncidentResponse \<times> real) list \<Rightarrow> string
     \<Rightarrow> error + string" where
  "generate_action_from_similar env sev cat similar fallback_action =
     (if similar = [] then Inr fallback_action
      else
        (let actions =
               map (\<lambda>(inc, score). the (IncidentResponse.suggested_action inc))
                 (filter (\<lambda>(inc, score). has_action inc) similar)
         in if actions \<noteq> [] then
              (case py_max (set_order env actions) (count_list actions) of
                 Inl e \<Rightarrow> Inl e
               | Inr most_common \<Rightarrow>
                   Inr (most_common @ '' (Based on '' @ str_nat (length similar)
                        @ '' similar resolved incidents)''))
            else Inr fallback_action))"

text \<open>\<open>EmbeddingService\<close> (app/services/embedding_service.py).\<close>

definition generate_embedding ::
  "'w Env \<Rightarrow> string \<Rightarrow> 'w state \<Rightarrow> (error + embedding) \<times> 'w state" where
  "generate_embedding env txt s =
     (case embedding_client env of
        None \<Rightarrow> (Inl (RuntimeError ''OpenAI client not initialized. Check OPENAI_API_KEY.''), s)
      | Some create \<Rightarrow>
          (case create txt (world s) of
             (Inl e, w') \<Rightarrow>
               (Inl (RuntimeError (''Failed to generate embedding: '' @ str_of e)),
                s\<lparr>world := w'\<rparr>)
           | (Inr emb, w') \<Rightarrow> (Inr emb, s\<lparr>world := w'\<rparr>)))"

definition generate_incident_embedding ::
  "'w Env \<Rightarrow> string \<Rightarrow> string \<Rightarrow> 'w state \<Rightarrow> (error + embedding) \<times> 'w state" where
  "generate_incident_embedding env ttl descr s =
     (let combined_text = ttl @ [CHR 0x0A, CHR 0x0A] @ descr
      in generate_embedding env combined_text s)"

definition enrich_rule_based :: "IncidentCreate \<Rightarrow> RuleResult" where
  "enrich_rule_based incident =
     (let sev = determine_severity incident;
          cat = determine_category incident;
          smry = generate_summary incident;
          action = suggest_action incident cat sev
      in \<lparr>severity = sev, category = cat, summary = smry, suggested_action = action\<rparr>)"

text \<open>\<open>{**rule_result, 'enrichment_method': method, 'similar_incidents': []}\<close>\<close>

definition with_method :: "RuleResult \<Rightarrow> string \<Rightarrow> EnrichmentResult" where
  "with_method rule_result method =
     \<lparr>severity = severity rule_result, category = category rule_result,
      summary = summary rule_result, suggested_action = suggested_action rule_result,
      enrichment_method = method, similar_incidents = []\<rparr>"

text \<open>
  \<open>_should_use_rag\<close>. The \<open>try\<close> block is the part that can raise; \<open>except
  Exception: return False\<close> is its \<open>Inl\<close> branch.
\<close>

definition should_use_rag ::
  "'w Env \<Rightarrow> IncidentCreate \<Rightarrow> RuleResult \<Rightarrow> 'w state \<Rightarrow> (error + bool) \<times> 'w state" where
  "should_use_rag env incident rule_result s =
     (if rag_force_all env then (Inr True, s)
      else if category rule_result = UNKNOWN then (Inr True, s)
      else if length (description incident) < 50 then (Inr True, s)
      else
        (case generate_incident_embedding env (title incident) (description incident) s of
           (Inl e, s1) \<Rightarrow> (Inr False, s1)
         | (Inr query_embedding, s1) \<Rightarrow>
             (case find_similar env query_embedding 1 (Some [(''status'', ''resolved'')]) s1 of
                (Inl e, s2) \<Rightarrow> (Inr False, s2)
              | (Inr similar, s2) \<Rightarrow> (Inr (length similar > 0), s2))))"

text \<open>
  The classification step of \<open>_enrich_with_rag\<close>: the language model if a client is
  there, the vote otherwise. When the language model raises, the handler prints a
  message and goes on with the rule result; an exception of that \<open>print\<close> is raised
  by \<open>_enrich_with_rag\<close>.
\<close>

definition classify ::
  "'w Env \<Rightarrow> IncidentCreate \<Rightarrow> (IncidentResponse \<times> real) list \<Rightarrow> RuleResult \<Rightarrow> 'w state
     \<Rightarrow> (error + Severity \<times> Category) \<times> 'w state" where
  "classify env incident similar rule_result s =
     (case llm_client env of
        Some classify_with_llm \<Rightarrow>
          (case classify_with_llm incident similar (world s) of
             (Inl e, w') \<Rightarrow>
               (case print env
                       (''LLM classification failed: '' @ str_of e @ ''. Using rule-based.'') w' of
                  (Inl e', w'') \<Rightarrow> (Inl e', s\<lparr>world := w''\<rparr>)
                | (Inr u, w'') \<Rightarrow>
                    (Inr (severity rule_result, category rule_result), s\<lparr>world := w''\<rparr>))
           | (Inr classification, w') \<Rightarrow> (Inr classification, s\<lparr>world := w'\<rparr>))
      | None \<Rightarrow> (classify_by_majority_vote similar rule_result, s))"

definition similar_entry :: "'w Env \<Rightarrow> IncidentResponse \<times> real \<Rightarrow> SimilarIncident" where
  "similar_entry env p =
     (case p of
        (inc, score) \<Rightarrow>
          \<lparr>ref_id = id' inc, ref_title = IncidentResponse.title inc,
           ref_category = category_value (IncidentResponse.category inc),
           ref_severity = severity_value (IncidentResponse.severity inc),
           similarity_score = round3 env score\<rparr>)"

definition enrich_with_rag ::
  "'w Env \<Rightarrow> IncidentCreate \<Rightarrow> RuleResult \<Rightarrow> 'w state
     \<Rightarrow> (error + EnrichmentResult) \<times> 'w state" where
  "enrich_with_rag env incident rule_result s =
     (case generate_incident_embedding env (title incident) (description incident) s of
        (Inl e, s1) \<Rightarrow> (Inl e, s1)
      | (Inr query_embedding, s1) \<Rightarrow>
          (case find_similar env query_embedding (rag_max_similar_incidents env)
                  (Some [(''status'', ''resolved'')]) s1 of
             (Inl e, s2) \<Rightarrow> (Inl e, s2)
           | (Inr similar, s2) \<Rightarrow>
               (if similar = [] then (Inr (with_method rule_result ''rule_based''), s2)
                else
                  (case classify env incident similar rule_result s2 of
                     (Inl e, s3) \<Rightarrow> (Inl e, s3)
                   | (Inr (sev, cat), s3) \<Rightarrow>
                       (let smry = generate_summary incident in
                        case generate_action_from_similar env sev cat similar
                               (suggested_action rule_result) of
                          Inl e \<Rightarrow> (Inl e, s3)
                        | Inr action \<Rightarrow>
                            (Inr \<lparr>severity = sev, category = cat, summary = smry,
                                  suggested_action = action, enrichment_method = ''rag'',
                                  similar_incidents = map (similar_entry env) (take 3 similar)\<rparr>,
                             s3))))))"

text \<open>
  \<open>enrich_incident\<close>. An exception of \<open>_should_use_rag\<close> would pass through; one of
  \<open>_enrich_with_rag\<close> is caught. The handler first prints a message: that \<open>print\<close> is
  in no \<open>try\<close> block, and an exception it raises is raised by \<open>enrich_incident\<close>.
\<close>

definition enrich_incident ::
  "'w Env \<Rightarrow> IncidentCreate \<Rightarrow> 'w state \<Rightarrow> (error + EnrichmentResult) \<times> 'w state" where
  "enrich_incident env incident s =
     (let rule_result = enrich_rule_based incident in
      case should_use_rag env incident rule_result s of
        (Inl e, s1) \<Rightarrow> (Inl e, s1)
      | (Inr use_rag, s1) \<Rightarrow>
          (if \<not> use_rag then (Inr (with_method rule_result ''rule_based''), s1)
           else
             (case enrich_with_rag env incident rule_result s1 of
                (Inr rag_result, s2) \<Rightarrow> (Inr rag_result, s2)
              | (Inl e, s2) \<Rightarrow>
                  (case print env
                          (''RAG enrichment failed: '' @ str_of e
                           @ ''. Falling back to rule-based.'') (world s2) of
                     (Inl e', w') \<Rightarrow> (Inl e', s2\<lparr>world := w'\<rparr>)
                   | (Inr u, w') \<Rightarrow>
                       (Inr (with_method rule_result ''rule_based_fallback''),
                        s2\<lparr>world := w'\<rparr>)))))"

section \<open>Notions the properties are stated with\<close>

text \<open>
  The text both keyword scans search, the keyword list of a category (the lookup
  \<open>CATEGORY_KEYWORDS[c]\<close>), and a category matching a text: one of its keywords is a
  contiguous part (\<^const>\<open>sublist\<close>) of the text.
\<close>

definition searched_text :: "IncidentCreate \<Rightarrow> string" where
  "searched_text incident = lower (title incident @ '' '' @ description incident)"

definition keywords_of :: "Category \<Rightarrow> string list" where
  "keywords_of c = (case map_of CATEGORY_KEYWORDS c of Some kws \<Rightarrow> kws | None \<Rightarrow> [])"

definition matches :: "Category \<Rightarrow> string \<Rightarrow> bool" where
  "matches c s = (\<exists>k \<in> set (keywords_of c). sublist k s)"

text \<open>
  For the weighted vote. \<open>scores_of f v\<close> lists the scores of the neighbours
  carrying the value \<open>v\<close> of the attribute \<open>f\<close>, in the order of the neighbour list.
  \<open>weight_of f v\<close> is the accumulated weight of \<open>v\<close>: these scores added up as floats
  from 0, in that order. \<open>exact_weight_of f v\<close> is their sum as numbers.
  \<open>first_index f v\<close> is the position of the first neighbour carrying \<open>v\<close>. A value is
  \<open>elected\<close> when a neighbour carries it, no value carried by a neighbour has a greater
  weight, and every value of the same weight is first met no earlier. \<open>first_occ\<close> lists
  the elements of a list once each, in the order they are first met; \<open>votes\<close> is the
  loop of the vote for one attribute.
\<close>

definition scores_of :: "(IncidentResponse \<Rightarrow> 'v) \<Rightarrow> 'v \<Rightarrow> (IncidentResponse \<times> real) list \<Rightarrow> real list" where
  "scores_of f v similar = map snd (filter (\<lambda>(inc, score). f inc = v) similar)"

definition weight_of :: "(IncidentResponse \<Rightarrow> 'v) \<Rightarrow> 'v \<Rightarrow> (IncidentResponse \<times> real) list \<Rightarrow> real" where
  "weight_of f v similar = foldl float_add 0 (scores_of f v similar)"

definition exact_weight_of :: "(IncidentResponse \<Rightarrow> 'v) \<Rightarrow> 'v \<Rightarrow> (IncidentResponse \<times> real) list \<Rightarrow> real" where
  "exact_weight_of f v similar = sum_list (scores_of f v similar)"

definition first_index :: "(IncidentResponse \<Rightarrow> 'v) \<Rightarrow> 'v \<Rightarrow> (IncidentResponse \<times> real) list \<Rightarrow> nat" where
  "first_index f v similar = length (takeWhile (\<lambda>(inc, score). f inc \<noteq> v) similar)"

definition elected :: "(IncidentResponse \<Rightarrow> 'v) \<Rightarrow> (IncidentResponse \<times> real) list \<Rightarrow> 'v \<Rightarrow> bool" where
  "elected f similar v =
     (v \<in> f ` fst ` set similar
      \<and> (\<forall>u \<in> f ` fst ` set similar.
            weight_of f u similar \<le> weight_of f v similar
            \<and> (weight_of f u similar = weight_of f v similar
                 \<longrightarrow> first_index f v similar \<le> first_index f u similar)))"

fun first_occ :: "'a list \<Rightarrow> 'a list" where
  "first_occ [] = []"
| "first_occ (x # xs) = x # filter (\<lambda>y. y \<noteq> x) (first_occ xs)"

fun votes :: "(IncidentResponse \<Rightarrow> 'v) \<Rightarrow> (IncidentResponse \<times> real) list \<Rightarrow> ('v \<times> real) list \<Rightarrow> ('v \<times> real) list" where
  "votes f [] d = d"
| "votes f ((inc, score) # rest) d = votes f rest (dict_add d (f inc) score)"

text \<open>The candidates that have an embedding, in the order they were retrieved in.\<close>

definition with_embedding :: "(string \<rightharpoonup> embedding) \<Rightarrow> IncidentResponse list \<Rightarrow> IncidentResponse list" where
  "with_embedding embs candidates = filter (\<lambda>inc. embs (id' inc) \<noteq> None) candidates"

section \<open>Concrete inputs\<close>

definition api_login_incident :: IncidentCreate where
  "api_login_incident =
     \<lparr>title = ''API login failure'',
      description = ''Users cannot log in: the Login page does not reach the payment API.'',
      erp_module = AP, environment = ENV_PROD, business_unit = ''Finance''\<rparr>"

definition printer_incident :: IncidentCreate where
  "printer_incident =
     \<lparr>title = ''Printer noise'',
      description = ''The office printer on the third floor makes a loud noise when it prints.'',
      erp_module = HR, environment = ENV_TEST, business_unit = ''Office''\<rparr>"

text \<open>
  Two resolved incidents, both stored with the embedding \<open>[1, 0]\<close>. In \<open>demo_env\<close> the
  world is the clock's reading, the incident store lists the two incidents (in the order
  a, b) for the status resolved, the embedding provider answers \<open>[1, 0]\<close>, and the
  similarity of two vectors of equal length is their dot product (their cosine, for
  vectors of length one), \<open>np.argsort\<close> leaves equal values in index order, and
  \<open>print\<close> succeeds.
\<close>

definition resolved_incident ::
  "string \<Rightarrow> Severity \<Rightarrow> Category \<Rightarrow> string option \<Rightarrow> IncidentResponse" where
  "resolved_incident i sev cat action =
     \<lparr>id' = i, title = ''Incident '' @ i, description = ''Resolved incident '' @ i,
      erp_module = ''AP'', environment = ''Prod'', business_unit = ''Finance'',
      severity = sev, category = cat, status = RESOLVED, created_at = 0, updated_at = 0,
      summary = None, suggested_action = action\<rparr>"

definition inc_a :: IncidentResponse where
  "inc_a = resolved_incident ''a'' P2 INTEGRATION_FAILURE (Some ''Restart the sync job'')"

definition inc_b :: IncidentResponse where
  "inc_b = resolved_incident ''b'' P1 DATA_ISSUE (Some ''Reload the data'')"

definition dot :: "embedding \<Rightarrow> embedding \<Rightarrow> error + real" where
  "dot q v =
     (if length q = length v then Inr (sum_list (map (\<lambda>(x, y). x * y) (zip q v)))
      else Inl (ValueError ''Incompatible dimension''))"

definition demo_env :: "int Env" where
  "demo_env =
     \<lparr>rag_force_all = False, rag_max_similar_incidents = 5,
      datetime_now = (\<lambda>w. w),
      incident_repo_list_all =
        (\<lambda>limit st w. (Inr (if st = ''resolved'' then [inc_a, inc_b] else []), w)),
      embedding_client = Some (\<lambda>txt w. (Inr [1, 0], w)),
      cosine = dot,
      llm_client = None,
      round3 = (\<lambda>x. x),
      set_order = remdups,
      argsort_ties = (\<lambda>similarities i. 0),
      print = (\<lambda>message w. (Inr (), w))\<rparr>"

definition demo_state :: "int state" where
  "demo_state = add_embedding ''b'' [1, 0] [] (add_embedding ''a'' [1, 0] [] (init 0))"

definition resolved_only :: "(string \<times> string) list option" where
  "resolved_only = Some [(''status'', ''resolved'')]"

text \<open>
  The two dictionaries of the index have the same keys: so it is at the start, and
  every operation keeps it so. Then three searches for resolved incidents, at the times
  0, 4 minutes and 8 minutes, with nothing added or removed in between.
\<close>

definition consistent :: "'w state \<Rightarrow> bool" where
  "consistent s = (dom (embeddings s) = dom (metadata s))"

definition minutes :: "int \<Rightarrow> int" where
  "minutes n = n * 60 * 1000000"

definition after_first_call :: "int state" where
  "after_first_call = snd (find_similar demo_env [1, 0] 5 resolved_only demo_state)"

definition after_second_call :: "int state" where
  "after_second_call =
     snd (find_similar demo_env [1, 0] 5 resolved_only (after_first_call\<lparr>world := minutes 4\<rparr>))"

definition after_third_call :: "int state" where
  "after_third_call =
     snd (find_similar demo_env [1, 0] 5 resolved_only (after_second_call\<lparr>world := minutes 8\<rparr>))"

definition short_incident :: IncidentCreate where
  "short_incident =
     \<lparr>title = ''API error'', description = ''Problem.'',
      erp_module = GL, environment = ENV_PROD, business_unit = ''Finance''\<rparr>"

text \<open>
  Two more resolved incidents, c and d, stored with the embedding \<open>[4/5, 3/5]\<close>, of
  similarity 4/5 to the query \<open>[1, 0]\<close>. In \<open>four_env\<close> the incident store lists a, b,
  c and d, and \<open>np.argsort\<close> lists the indices of equal values from the last to the
  first.
\<close>

definition inc_c :: IncidentResponse where
  "inc_c = resolved_incident ''c'' P1 DATA_ISSUE (Some ''Reload the data'')"

definition inc_d :: IncidentResponse where
  "inc_d = resolved_incident ''d'' P2 INTEGRATION_FAILURE (Some ''Restart the sync job'')"

definition four_env :: "int Env" where
  "four_env =
     demo_env
       \<lparr>incident_repo_list_all :=
          (\<lambda>limit st w.
             (Inr (if st = ''resolved'' then [inc_a, inc_b, inc_c, inc_d] else []), w)),
        argsort_ties := (\<lambda>similarities i. length similarities - i)\<rparr>"

definition four_state :: "int state" where
  "four_state =
     add_embedding ''d'' [4 / 5, 3 / 5] [] (add_embedding ''c'' [4 / 5, 3 / 5] [] demo_state)"

text \<open>
  Four neighbours in the order of descending score, a and d of severity P2 and
  category Integration Failure, b and c of severity P1 and category Data Issue. The
  scores are the floats 0.75, 0.75, 0.75 and 0.7499999999999999 (the double next
  below 0.75).
\<close>

definition rounding_neighbours :: "(IncidentResponse \<times> real) list" where
  "rounding_neighbours =
     [(inc_a, 3 / 4), (inc_b, 3 / 4), (inc_c, 3 / 4),
      (inc_d, 6755399441055743 / 9007199254740992)]"

text \<open>
  An environment with no embedding client, so that the retrieval path raises, and with
  a standard output that has been closed, so that \<open>print\<close> raises.
\<close>

definition closed_stdout_env :: "int Env" where
  "closed_stdout_env =
     demo_env
       \<lparr>embedding_client := None,
        print := (\<lambda>message w. (Inl (ValueError ''I/O operation on closed file.''), w))\<rparr>"

section \<open>Properties of the rule classifier\<close>

lemma str_in_sublist: "str_in keyword s = sublist keyword s"
  by (induction s) (auto simp: sublist_Cons_right)

lemma keyword_hit_iff: "keyword_hit kws text = (\<exists>k \<in> set kws. sublist k text)"
  by (induction kws) (auto simp: str_in_sublist)

lemma split_acc_never_empty: "split_acc sep piece s \<noteq> []"
  by (induction s arbitrary: piece) auto

lemma hd_split_acc: "hd (split_acc sep piece s) = piece @ takeWhile (\<lambda>c. c \<noteq> sep) s"
  by (induction s arbitrary: piece) auto

lemma hd_split: "hd (split text sep) = takeWhile (\<lambda>c. c \<noteq> sep) text"
  by (simp add: split_def hd_split_acc)

lemma matches_hit: "matches c s = keyword_hit (keywords_of c) s"
  by (simp add: matches_def keyword_hit_iff)

lemma scan_categories_chain:
  "scan_categories CATEGORY_KEYWORDS s =
     (if matches INTEGRATION_FAILURE s then INTEGRATION_FAILURE
      else if matches SECURITY_ACCESS s then SECURITY_ACCESS
      else if matches DATA_ISSUE s then DATA_ISSUE
      else if matches CONFIGURATION_ISSUE s then CONFIGURATION_ISSUE
      else UNKNOWN)"
  by (simp add: matches_hit keywords_of_def CATEGORY_KEYWORDS_def)

text \<open>
  C7. The category of the rule classifier is the first of Integration, Security, Data,
  Configuration, in this order, one of whose keywords occurs in the lowercased text
  (title, a space, description). A text matching both an Integration and a Security
  keyword gives Integration; a text matching no category gives Unknown.
\<close>

theorem determine_category_first_match:
  "determine_category incident =
     (if matches INTEGRATION_FAILURE (searched_text incident) then INTEGRATION_FAILURE
      else if matches SECURITY_ACCESS (searched_text incident) then SECURITY_ACCESS
      else if matches DATA_ISSUE (searched_text incident) then DATA_ISSUE
      else if matches CONFIGURATION_ISSUE (searched_text incident) then CONFIGURATION_ISSUE
      else UNKNOWN)
   \<and> (matches INTEGRATION_FAILURE (searched_text incident)
        \<and> matches SECURITY_ACCESS (searched_text incident)
      \<longrightarrow> determine_category incident = INTEGRATION_FAILURE)
   \<and> ((\<forall>c. \<not> matches c (searched_text incident))
      \<longrightarrow> determine_category incident = UNKNOWN)"
proof -
  have chain:
    "determine_category incident = scan_categories CATEGORY_KEYWORDS (searched_text incident)"
    by (simp add: determine_category_def searched_text_def normalize_text_def)
  show ?thesis
    unfolding chain scan_categories_chain by simp
qed

theorem determine_category_first_match_witness:
  "matches INTEGRATION_FAILURE (searched_text api_login_incident)
   \<and> matches SECURITY_ACCESS (searched_text api_login_incident)
   \<and> determine_category api_login_incident = INTEGRATION_FAILURE
   \<and> (\<forall>c. \<not> matches c (searched_text printer_incident))
   \<and> determine_category printer_incident = UNKNOWN"
proof -
  have a: "matches INTEGRATION_FAILURE (searched_text api_login_incident)" by code_simp
  have b: "matches SECURITY_ACCESS (searched_text api_login_incident)" by code_simp
  have c: "\<forall>c. \<not> matches c (searched_text printer_incident)"
  proof
    fix c show "\<not> matches c (searched_text printer_incident)"
      by (cases c; hypsubst; code_simp)
  qed
  from a b c determine_category_first_match [of api_login_incident]
    determine_category_first_match [of printer_incident]
  show ?thesis by simp
qed

text \<open>
  C9, as the claim states it, fails: a first sentence of 98 characters is longer than
  97 characters and is kept whole, with no ellipsis.
\<close>

theorem generate_summary_threshold_counterexample:
  "length (strip (hd (split (replicate 98 (CHR ''a'')) (CHR ''.'')))) = 98
   \<and> generate_summary
        \<lparr>title = ''T'', description = replicate 98 (CHR ''a''),
         erp_module = GL, environment = ENV_PROD, business_unit = ''F''\<rparr>
      = ''T: '' @ replicate 98 (CHR ''a'')
   \<and> generate_summary
        \<lparr>title = ''T'', description = replicate 98 (CHR ''a''),
         erp_module = GL, environment = ENV_PROD, business_unit = ''F''\<rparr>
      \<noteq> ''T: '' @ take 97 (replicate 98 (CHR ''a'')) @ ''...''"
  by code_simp

text \<open>
  C9, amended. The summary is the title, a colon and a space, then the first sentence
  of the description (the text before the first full stop, stripped of surrounding
  white space): whole when it has at most 100 characters, and its first 97 characters
  followed by three dots when it has more. So the part after the colon and the space
  never has more than 100 characters.
\<close>

theorem generate_summary_first_sentence:
  "generate_summary incident =
     (let sentence = strip (takeWhile (\<lambda>c. c \<noteq> CHR ''.'') (description incident))
      in title incident @ '': '' @
         (if length sentence \<le> 100 then sentence else take 97 sentence @ ''...''))
   \<and> length (generate_summary incident) \<le> length (title incident) + 102"
  by (simp add: generate_summary_def hd_split Let_def)

section \<open>Properties of the weighted vote\<close>

lemma count_votes_votes:
  "count_votes ns sc cc = (votes IncidentResponse.severity ns sc, votes IncidentResponse.category ns cc)"
  by (induction ns sc cc rule: count_votes.induct) auto

lemma set_first_occ [simp]: "set (first_occ xs) = set xs"
  by (induction xs) auto

lemma distinct_first_occ [simp]: "distinct (first_occ xs)"
  by (induction xs) auto

lemma dict_add_in:
  "distinct (map fst d) \<Longrightarrow> k \<in> fst ` set d \<Longrightarrow>
   dict_add d k w = map (\<lambda>(k', v). if k' = k then (k', float_add v w) else (k', v)) d"
  by (induction d) (auto simp: rev_image_eqI intro!: map_idI [symmetric])

lemma dict_add_notin:
  "k \<notin> fst ` set d \<Longrightarrow> dict_add d k w = d @ [(k, float_add 0 w)]"
  by (induction d) auto

lemma keys_dict_add:
  "map fst (dict_add d k w) = (if k \<in> fst ` set d then map fst d else map fst d @ [k])"
  by (induction d) (force simp: image_iff)+

lemma scores_of_Cons:
  "scores_of f v ((inc, s) # ns) = (if f inc = v then s # scores_of f v ns else scores_of f v ns)"
  by (simp add: scores_of_def)

lemma votes_closed:
  "distinct (map fst d) \<Longrightarrow>
   votes f ns d =
     map (\<lambda>(k, v). (k, foldl float_add v (scores_of f k ns))) d
     @ map (\<lambda>k. (k, weight_of f k ns))
         (filter (\<lambda>k. k \<notin> fst ` set d) (first_occ (map (f \<circ> fst) ns)))"
proof (induction ns arbitrary: d)
  case Nil
  then show ?case by (simp add: case_prod_unfold scores_of_def)
next
  case (Cons n ns)
  obtain inc s where n: "n = (inc, s)" by (cases n)
  let ?L = "first_occ (map (f \<circ> fst) ns)"
  let ?d' = "dict_add d (f inc) s"
  have occ: "first_occ (map (f \<circ> fst) (n # ns)) = f inc # filter (\<lambda>y. y \<noteq> f inc) ?L"
    by (simp add: n)
  show ?case
  proof (cases "f inc \<in> fst ` set d")
    case True
    have d': "?d' = map (\<lambda>(k', v). if k' = f inc then (k', float_add v s) else (k', v)) d"
      using Cons.prems True by (rule dict_add_in)
    have keys: "map fst ?d' = map fst d"
      using True by (simp add: keys_dict_add)
    then have dist: "distinct (map fst ?d')" using Cons.prems by simp
    have keyset: "fst ` set ?d' = fst ` set d"
      using keys by (metis list.set_map)
    have A: "map (\<lambda>(k, v). (k, foldl float_add v (scores_of f k ns))) ?d'
           = map (\<lambda>(k, v). (k, foldl float_add v (scores_of f k (n # ns)))) d"
      unfolding d' n by (simp add: scores_of_Cons case_prod_unfold)
    have F: "filter (\<lambda>k. k \<notin> fst ` set d) (first_occ (map (f \<circ> fst) (n # ns)))
           = filter (\<lambda>k. k \<notin> fst ` set d) ?L"
      unfolding occ using True by (auto intro: filter_cong)
    have B: "map (\<lambda>k. (k, weight_of f k ns)) (filter (\<lambda>k. k \<notin> fst ` set d) ?L)
           = map (\<lambda>k. (k, weight_of f k (n # ns))) (filter (\<lambda>k. k \<notin> fst ` set d) ?L)"
      using True by (intro map_cong refl) (force simp: n weight_of_def scores_of_Cons image_iff)+
    have "votes f (n # ns) d = votes f ns ?d'" by (simp add: n)
    also have "\<dots> = map (\<lambda>(k, v). (k, foldl float_add v (scores_of f k ns))) ?d'
        @ map (\<lambda>k. (k, weight_of f k ns)) (filter (\<lambda>k. k \<notin> fst ` set d) ?L)"
      using Cons.IH [OF dist] by (simp only: keyset)
    finally show ?thesis by (simp only: A B F)
  next
    case False
    have d': "?d' = d @ [(f inc, float_add 0 s)]"
      using False by (rule dict_add_notin)
    have dist: "distinct (map fst ?d')" using Cons.prems False by (simp add: d' image_iff)
    have keyset: "fst ` set ?d' = insert (f inc) (fst ` set d)"
      by (simp add: d')
    have A: "map (\<lambda>(k, v). (k, foldl float_add v (scores_of f k ns))) d
           = map (\<lambda>(k, v). (k, foldl float_add v (scores_of f k (n # ns)))) d"
      using False by (intro map_cong refl) (auto simp: n scores_of_Cons image_iff)
    have F: "filter (\<lambda>k. k \<notin> fst ` set d) (first_occ (map (f \<circ> fst) (n # ns)))
           = f inc # filter (\<lambda>k. k \<notin> insert (f inc) (fst ` set d)) ?L"
      unfolding occ using False by (auto intro: filter_cong)
    have B: "map (\<lambda>k. (k, weight_of f k ns)) (filter (\<lambda>k. k \<notin> insert (f inc) (fst ` set d)) ?L)
           = map (\<lambda>k. (k, weight_of f k (n # ns)))
               (filter (\<lambda>k. k \<notin> insert (f inc) (fst ` set d)) ?L)"
      by (intro map_cong refl) (auto simp: n weight_of_def scores_of_Cons)
    have W: "weight_of f (f inc) (n # ns) = foldl float_add (float_add 0 s) (scores_of f (f inc) ns)"
      by (simp add: n weight_of_def scores_of_Cons)
    have "votes f (n # ns) d = votes f ns ?d'" by (simp add: n)
    also have "\<dots> = map (\<lambda>(k, v). (k, foldl float_add v (scores_of f k ns))) ?d'
        @ map (\<lambda>k. (k, weight_of f k ns))
            (filter (\<lambda>k. k \<notin> insert (f inc) (fst ` set d)) ?L)"
      using Cons.IH [OF dist] by (simp only: keyset)
    also have "\<dots> = map (\<lambda>(k, v). (k, foldl float_add v (scores_of f k (n # ns)))) d
        @ (f inc, weight_of f (f inc) (n # ns))
        # map (\<lambda>k. (k, weight_of f k (n # ns)))
            (filter (\<lambda>k. k \<notin> insert (f inc) (fst ` set d)) ?L)"
      unfolding d' W B [symmetric] A [symmetric] by simp
    finally show ?thesis unfolding F by simp
  qed
qed

lemma max_from_first:
  "\<exists>pre post. best # xs = pre @ max_from key best xs # post
     \<and> (\<forall>x \<in> set pre. key x < key (max_from key best xs))
     \<and> (\<forall>x \<in> set post. key x \<le> key (max_from key best xs))"
proof (induction xs arbitrary: best)
  case Nil
  show ?case by (intro exI [of _ "[]"]) simp
next
  case (Cons x xs)
  show ?case
  proof (cases "key x > key best")
    case True
    from Cons.IH [of x] obtain pre post where
      split: "x # xs = pre @ max_from key x xs # post"
      and lo: "\<forall>y \<in> set pre. key y < key (max_from key x xs)"
      and hi: "\<forall>y \<in> set post. key y \<le> key (max_from key x xs)"
      by blast
    have "key x \<le> key (max_from key x xs)"
      using split lo by (cases pre) (auto simp: less_imp_le)
    with True have bl: "key best < key (max_from key x xs)" by simp
    have m: "max_from key best (x # xs) = max_from key x xs" using True by simp
    have e: "best # x # xs = (best # pre) @ max_from key best (x # xs) # post"
      using split m by simp
    have l: "\<forall>y \<in> set (best # pre). key y < key (max_from key best (x # xs))"
      using lo bl m by simp
    have h: "\<forall>y \<in> set post. key y \<le> key (max_from key best (x # xs))"
      using hi m by simp
    from e l h show ?thesis by blast
  next
    case False
    from Cons.IH [of best] obtain pre post where
      split: "best # xs = pre @ max_from key best xs # post"
      and lo: "\<forall>y \<in> set pre. key y < key (max_from key best xs)"
      and hi: "\<forall>y \<in> set post. key y \<le> key (max_from key best xs)"
      by blast
    have m: "max_from key best (x # xs) = max_from key best xs" using False by simp
    show ?thesis
    proof (cases pre)
      case Nil
      with split have r: "max_from key best xs = best" and p: "post = xs" by auto
      have e: "best # x # xs = [] @ max_from key best (x # xs) # (x # xs)"
        using r m by simp
      have h: "\<forall>y \<in> set (x # xs). key y \<le> key (max_from key best (x # xs))"
        using hi False r p m by (simp add: not_less)
      from e h show ?thesis by (metis empty_iff list.set(1))
    next
      case (Cons b pre')
      with split have b: "b = best" and xs: "xs = pre' @ max_from key best xs # post" by auto
      from lo Cons b have "key best < key (max_from key best xs)" by simp
      with False have xl: "key x < key (max_from key best xs)" by simp
      have e: "best # x # xs = (best # x # pre') @ max_from key best (x # xs) # post"
        using xs m by simp
      have l: "\<forall>y \<in> set (best # x # pre'). key y < key (max_from key best (x # xs))"
        using lo xl Cons b m by simp
      have h: "\<forall>y \<in> set post. key y \<le> key (max_from key best (x # xs))"
        using hi m by simp
      from e l h show ?thesis by blast
    qed
  qed
qed

lemma first_occ_order:
  "sorted_wrt (\<lambda>a b. length (takeWhile (\<lambda>y. y \<noteq> a) xs) < length (takeWhile (\<lambda>y. y \<noteq> b) xs))
     (first_occ xs)"
proof (induction xs)
  case Nil
  show ?case by simp
next
  case (Cons x xs)
  have "sorted_wrt (\<lambda>a b. length (takeWhile (\<lambda>y. y \<noteq> a) xs) < length (takeWhile (\<lambda>y. y \<noteq> b) xs))
          (filter (\<lambda>y. y \<noteq> x) (first_occ xs))"
    using Cons.IH by (rule sorted_wrt_filter)
  then have "sorted_wrt
      (\<lambda>a b. length (takeWhile (\<lambda>y. y \<noteq> a) (x # xs)) < length (takeWhile (\<lambda>y. y \<noteq> b) (x # xs)))
      (filter (\<lambda>y. y \<noteq> x) (first_occ xs))"
    by (rule sorted_wrt_mono_rel [rotated]) auto
  then show ?case by auto
qed

lemma first_index_keys:
  "first_index f v ns = length (takeWhile (\<lambda>y. y \<noteq> v) (map (f \<circ> fst) ns))"
  by (simp add: first_index_def takeWhile_map comp_def case_prod_unfold)

lemma py_max_votes_elected:
  assumes "ns \<noteq> []"
  shows "\<exists>r. py_max (votes f ns []) snd = Inr r \<and> elected f ns (fst r)"
proof -
  let ?ks = "map (f \<circ> fst) ns"
  let ?W = "\<lambda>k. weight_of f k ns"
  have items: "votes f ns [] = map (\<lambda>k. (k, ?W k)) (first_occ ?ks)"
    using votes_closed [of "[]" f ns] by simp
  from assms obtain k0 rest where occ: "first_occ ?ks = k0 # rest"
    by (cases ns) auto
  let ?items = "votes f ns []"
  let ?r = "max_from snd (k0, ?W k0) (map (\<lambda>k. (k, ?W k)) rest)"
  have pm: "py_max ?items snd = Inr ?r"
    by (simp add: items occ py_max_def)
  from max_from_first [of "(k0, ?W k0)" "map (\<lambda>k. (k, ?W k)) rest" snd]
  obtain pre post where
    split: "?items = pre @ ?r # post"
    and lo: "\<forall>x \<in> set pre. snd x < snd ?r"
    and hi: "\<forall>x \<in> set post. snd x \<le> snd ?r"
    by (auto simp: items occ)
  have mem: "?r \<in> set ?items" using split by simp
  then obtain k where k: "k \<in> set (first_occ ?ks)" "?r = (k, ?W k)"
    unfolding items by auto
  from k have rk: "fst ?r \<in> set ?ks" by (simp only: fst_conv set_first_occ)
  from k have rw: "snd ?r = ?W (fst ?r)" by (simp only: fst_conv snd_conv)
  have keys: "first_occ ?ks = map fst pre @ fst ?r # map fst post"
  proof -
    have "map fst ?items = first_occ ?ks" by (simp add: items comp_def)
    then show ?thesis using split by (metis list.simps(9) map_append)
  qed
  have ord: "\<forall>p \<in> set post. first_index f (fst ?r) ns < first_index f (fst p) ns"
    using first_occ_order [of ?ks] unfolding keys
    by (simp add: sorted_wrt_append first_index_keys)
  have "elected f ns (fst ?r)"
    unfolding elected_def
  proof (intro conjI ballI)
    show "fst ?r \<in> f ` fst ` set ns" using rk by (simp add: image_image)
  next
    fix u assume "u \<in> f ` fst ` set ns"
    then have "u \<in> set (first_occ ?ks)" by (simp add: image_image)
    then have "(u, ?W u) \<in> set ?items" by (auto simp: items)
    then consider "(u, ?W u) \<in> set pre" | "(u, ?W u) = ?r" | "(u, ?W u) \<in> set post"
      using split by auto
    then show "?W u \<le> ?W (fst ?r)"
    proof cases
      case 1 with lo rw show ?thesis by force
    next
      case 2 then show ?thesis by (metis fst_conv order_refl)
    next
      case 3 with hi rw show ?thesis by force
    qed
  next
    fix u assume "u \<in> f ` fst ` set ns"
    then have "u \<in> set (first_occ ?ks)" by (simp add: image_image)
    then have "(u, ?W u) \<in> set ?items" by (auto simp: items)
    then consider "(u, ?W u) \<in> set pre" | "(u, ?W u) = ?r" | "(u, ?W u) \<in> set post"
      using split by auto
    then show "?W u = ?W (fst ?r) \<longrightarrow> first_index f (fst ?r) ns \<le> first_index f u ns"
    proof cases
      case 1 with lo rw show ?thesis by force
    next
      case 2 then show ?thesis by (metis fst_conv order_refl)
    next
      case 3
      with ord have "first_index f (fst ?r) ns < first_index f (fst (u, ?W u)) ns" by blast
      then show ?thesis by simp
    qed
  qed
  with pm show ?thesis by blast
qed

lemma classify_by_majority_vote_elected:
  assumes "similar \<noteq> []"
  shows "\<exists>sev cat. classify_by_majority_vote similar rule_result = Inr (sev, cat)
           \<and> elected IncidentResponse.severity similar sev
           \<and> elected IncidentResponse.category similar cat"
proof -
  from py_max_votes_elected [OF assms, of IncidentResponse.severity]
  obtain rs where rs: "py_max (votes IncidentResponse.severity similar []) snd = Inr rs"
    and es: "elected IncidentResponse.severity similar (fst rs)" by blast
  from py_max_votes_elected [OF assms, of IncidentResponse.category]
  obtain rc where rc: "py_max (votes IncidentResponse.category similar []) snd = Inr rc"
    and ec: "elected IncidentResponse.category similar (fst rc)" by blast
  have "classify_by_majority_vote similar rule_result = Inr (fst rs, fst rc)"
    using assms by (simp add: classify_by_majority_vote_def count_votes_votes rs rc)
  with es ec show ?thesis by blast
qed

lemma enrich_with_rag_vote:
  assumes llm: "llm_client env = None"
    and emb: "fst (generate_incident_embedding env (title incident) (description incident) s) = Inr q"
    and sim: "fst (find_similar env q (rag_max_similar_incidents env) (Some [(''status'', ''resolved'')])
                (snd (generate_incident_embedding env (title incident) (description incident) s)))
              = Inr similar"
    and ne: "similar \<noteq> []"
    and res: "fst (enrich_with_rag env incident rule_result s) = Inr r"
  shows "classify_by_majority_vote similar rule_result = Inr (severity r, category r)"
proof -
  obtain s1 where g: "generate_incident_embedding env (title incident) (description incident) s = (Inr q, s1)"
    using emb by (cases "generate_incident_embedding env (title incident) (description incident) s") auto
  obtain s2 where f: "find_similar env q (rag_max_similar_incidents env) (Some [(''status'', ''resolved'')]) s1
      = (Inr similar, s2)"
    using sim g
    by (cases "find_similar env q (rag_max_similar_incidents env) (Some [(''status'', ''resolved'')]) s1") auto
  from classify_by_majority_vote_elected [OF ne, of rule_result]
  obtain sev cat where v: "classify_by_majority_vote similar rule_result = Inr (sev, cat)" by blast
  show ?thesis
    using res ne
    by (auto simp: enrich_with_rag_def g f classify_def llm v split: sum.splits)
qed

text \<open>
  C5, amended. With no language-model client and a non-empty neighbour list, the
  classification step returns a severity and a category that are each elected: carried
  by a neighbour, of maximal accumulated weight, and among the values of that weight
  the one first met in the neighbour list. The accumulated weight of a value is the
  sum of the scores of the neighbours carrying it as the code computes it: added up as
  floats, from 0, in the order of the neighbour list, each addition rounded; weights
  that are equal after rounding are a tie. The two values are the severity and the
  category of the result of the retrieval path.
\<close>

theorem majority_vote_elects:
  assumes "llm_client env = None" and "similar \<noteq> []"
  shows "(\<exists>sev cat. fst (classify env incident similar rule_result s) = Inr (sev, cat)
            \<and> elected IncidentResponse.severity similar sev
            \<and> elected IncidentResponse.category similar cat)
       \<and> (\<forall>q r. fst (generate_incident_embedding env (title incident) (description incident) s) = Inr q
              \<and> fst (find_similar env q (rag_max_similar_incidents env)
                      (Some [(''status'', ''resolved'')])
                      (snd (generate_incident_embedding env (title incident)
                             (description incident) s))) = Inr similar
              \<and> fst (enrich_with_rag env incident rule_result s) = Inr r
            \<longrightarrow> fst (classify env incident similar rule_result s) = Inr (severity r, category r))"
proof -
  have c: "fst (classify env incident similar rule_result s)
           = classify_by_majority_vote similar rule_result"
    using assms(1) by (simp add: classify_def)
  show ?thesis
    unfolding c
    using classify_by_majority_vote_elected [OF assms(2), of rule_result]
      enrich_with_rag_vote [OF assms(1) _ _ assms(2), of incident s _ rule_result]
    by blast
qed

theorem majority_vote_elects_witness:
  "llm_client demo_env = None
   \<and> [(inc_b, 1), (inc_a, 1)] \<noteq> []
   \<and> fst (classify demo_env api_login_incident [(inc_b, 1), (inc_a, 1)]
            (enrich_rule_based api_login_incident) demo_state) = Inr (P1, DATA_ISSUE)
   \<and> weight_of IncidentResponse.severity P1 [(inc_b, 1), (inc_a, 1)] = 1
   \<and> weight_of IncidentResponse.severity P2 [(inc_b, 1), (inc_a, 1)] = 1
   \<and> elected IncidentResponse.severity [(inc_b, 1), (inc_a, 1)] P1
   \<and> elected IncidentResponse.category [(inc_b, 1), (inc_a, 1)] DATA_ISSUE"
proof -
  have l: "llm_client demo_env = None" by (simp add: demo_env_def)
  have n: "[(inc_b, 1::real), (inc_a, 1)] \<noteq> []" by simp
  have c: "fst (classify demo_env api_login_incident [(inc_b, 1), (inc_a, 1)]
            (enrich_rule_based api_login_incident) demo_state) = Inr (P1, DATA_ISSUE)"
    by code_simp
  have w1: "weight_of IncidentResponse.severity P1 [(inc_b, 1), (inc_a, 1)] = 1" by code_simp
  have w2: "weight_of IncidentResponse.severity P2 [(inc_b, 1), (inc_a, 1)] = 1" by code_simp
  from majority_vote_elects [OF l n, of api_login_incident
      "enrich_rule_based api_login_incident" demo_state] c
  have "elected IncidentResponse.severity [(inc_b, 1), (inc_a, 1)] P1
      \<and> elected IncidentResponse.category [(inc_b, 1), (inc_a, 1)] DATA_ISSUE"
    by auto
  with l n c w1 w2 show ?thesis by blast
qed

text \<open>
  C5, as the claim states it, fails: with the weight of a value read as the sum of the
  scores as numbers. Of the four neighbours of \<open>rounding_neighbours\<close>, the first and
  the last have severity P2 and category Integration Failure, and the sum of their
  scores is smaller than the sum 1.5 of the scores of the other two, of severity P1 and
  category Data Issue. Added as floats, 0.75 and 0.7499999999999999 give 1.5 as well,
  and the vote returns the values met first, P2 and Integration Failure.
\<close>

theorem majority_vote_rounding_counterexample:
  "fst (classify demo_env api_login_incident rounding_neighbours
          (enrich_rule_based api_login_incident) demo_state) = Inr (P2, INTEGRATION_FAILURE)
   \<and> exact_weight_of IncidentResponse.severity P2 rounding_neighbours
       < exact_weight_of IncidentResponse.severity P1 rounding_neighbours
   \<and> exact_weight_of IncidentResponse.category INTEGRATION_FAILURE rounding_neighbours
       < exact_weight_of IncidentResponse.category DATA_ISSUE rounding_neighbours
   \<and> weight_of IncidentResponse.severity P2 rounding_neighbours = 3 / 2
   \<and> weight_of IncidentResponse.severity P1 rounding_neighbours = 3 / 2"
  by code_simp

section \<open>The suggested action taken from the neighbours\<close>

text \<open>
  C8. Two neighbours, each with an action of its own, so that both actions are equally
  frequent: when the set of the actions is iterated with the second neighbour's action
  first, that action is returned, not the one that occurs first in the neighbour list.
\<close>

theorem generate_action_tie_follows_set_order:
  "generate_action_from_similar (demo_env\<lparr>set_order := \<lambda>xs. rev (remdups xs)\<rparr>)
     P2 INTEGRATION_FAILURE [(inc_a, 1), (inc_b, 4 / 5)] ''Fallback''
   = Inr ''Reload the data (Based on 2 similar resolved incidents)''"
  by code_simp

section \<open>Properties of the similarity search\<close>

lemma collect_results_closed:
  "collect_results sims incs limit idxs results =
     results @ map (\<lambda>i. (incs ! i, sims ! i))
       (take (nat limit - length results) (filter (\<lambda>i. min_similarity \<le> sims ! i) idxs))"
proof (induction idxs arbitrary: results)
  case Nil
  show ?case by simp
next
  case (Cons idx idxs)
  show ?case
  proof (cases "min_similarity \<le> sims ! idx \<and> int (length results) < limit")
    case True
    then have "nat limit - length results = Suc (nat limit - length (results @ [(incs ! idx, sims ! idx)]))"
      by auto
    with True show ?thesis by (simp add: Cons.IH)
  next
    case False
    show ?thesis
    proof (cases "min_similarity \<le> sims ! idx")
      case True
      with False have "nat limit - length results = 0" by auto
      with False True show ?thesis by (simp add: Cons.IH)
    next
      case False
      then show ?thesis by (simp add: Cons.IH)
    qed
  qed
qed

lemma length_cosine_similarity:
  "cosine_similarity env q vs = Inr sims \<Longrightarrow> length sims = length vs"
  by (induction vs arbitrary: sims) (auto split: sum.splits)

lemma insort_key_lex:
  assumes "sorted_wrt (\<lambda>a b. f a < f b \<or> (f a = f b \<and> R a b)) xs"
    and "\<forall>y \<in> set xs. R x y"
  shows "sorted_wrt (\<lambda>a b. f a < f b \<or> (f a = f b \<and> R a b)) (insort_key f x xs)"
  using assms
proof (induction xs)
  case Nil
  show ?case by simp
next
  case (Cons y ys)
  show ?case
  proof (cases "f x \<le> f y")
    case True
    have "\<forall>z \<in> set ys. f y \<le> f z" using Cons.prems(1) by auto
    with True Cons.prems show ?thesis by (auto simp: le_less)
  next
    case False
    with Cons show ?thesis by (auto simp: not_le set_insort_key)
  qed
qed

lemma sort_key_lex:
  "sorted_wrt R xs \<Longrightarrow>
   sorted_wrt (\<lambda>a b. f a < f b \<or> (f a = f b \<and> R a b)) (sort_key f xs)"
  by (induction xs) (auto intro: insort_key_lex)

lemma argsort_lex:
  "sorted_wrt
     (\<lambda>a b. sims ! a < sims ! b
        \<or> (sims ! a = sims ! b
            \<and> (argsort_ties env sims a < argsort_ties env sims b
                \<or> (argsort_ties env sims a = argsort_ties env sims b \<and> a < b))))
     (argsort env sims)"
  unfolding argsort_def by (intro sort_key_lex) simp

lemma set_argsort: "set (argsort env sims) = {0..<length sims}"
  by (simp add: argsort_def)

lemma takeWhile_index:
  "distinct (pre @ p) \<Longrightarrow>
   map (\<lambda>i. length (takeWhile (\<lambda>j. j \<noteq> i) (pre @ p))) p
     = [length pre ..< length pre + length p]"
proof (induction p arbitrary: pre)
  case Nil
  show ?case by simp
next
  case (Cons x p)
  have x: "length (takeWhile (\<lambda>j. j \<noteq> x) (pre @ x # p)) = length pre"
    using Cons.prems by (subst takeWhile_append2) auto
  have "map (\<lambda>i. length (takeWhile (\<lambda>j. j \<noteq> i) ((pre @ [x]) @ p))) p
      = [length (pre @ [x]) ..< length (pre @ [x]) + length p]"
    using Cons.prems by (intro Cons.IH) simp
  then have r: "map (\<lambda>i. length (takeWhile (\<lambda>j. j \<noteq> i) (pre @ x # p))) p
      = [Suc (length pre) ..< Suc (length pre) + length p]"
    by simp
  have u: "[length pre ..< length pre + length (x # p)]
      = length pre # [Suc (length pre) ..< Suc (length pre) + length p]"
    by (subst upt_rec) (simp del: upt_Suc)
  show ?case unfolding u using x r by (simp del: upt_Suc)
qed

lemma argsort_any_order:
  assumes d: "distinct p" and s: "set p = {0..<length sims}"
    and o: "sorted (map (\<lambda>i. sims ! i) p)"
  shows "argsort (env\<lparr>argsort_ties := \<lambda>similarities i. length (takeWhile (\<lambda>j. j \<noteq> i) p)\<rparr>) sims = p"
proof -
  let ?t = "\<lambda>i. length (takeWhile (\<lambda>j. j \<noteq> i) p)"
  let ?q = "sort_key ?t [0..<length sims]"
  have tp: "map ?t p = [0..<length p]"
    using takeWhile_index [of "[]" p] d by simp
  have inj: "inj_on ?t (set p)"
  proof -
    have "distinct (map ?t p)" unfolding tp by simp
    then show ?thesis by (simp add: distinct_map)
  qed
  have "map ?t ?q = map ?t p"
  proof (rule sorted_distinct_set_unique)
    show "sorted (map ?t ?q)" by simp
    show "distinct (map ?t ?q)" using inj s by (simp add: distinct_map)
    show "sorted (map ?t p)" unfolding tp by simp
    show "distinct (map ?t p)" unfolding tp by simp
    show "set (map ?t ?q) = set (map ?t p)" using s by simp
  qed
  moreover have "inj_on ?t (set ?q \<union> set p)"
    using inj s by simp
  ultimately have q: "?q = p"
    by (simp only: inj_on_map_eq_map)
  have "argsort (env\<lparr>argsort_ties := \<lambda>similarities. ?t\<rparr>) sims = sort_key (\<lambda>i. sims ! i) ?q"
    by (simp add: argsort_def)
  also have "\<dots> = sort_key (\<lambda>i. sims ! i) p" by (simp only: q)
  also have "\<dots> = p" using o by (rule sort_key_id_if_sorted)
  finally show ?thesis .
qed

lemma rank_candidates_shape:
  assumes "rank_candidates env embs q limit candidates = Inr results"
  shows "\<exists>sims idxs.
           cosine_similarity env q (map (\<lambda>inc. the (embs (id' inc))) (with_embedding embs candidates))
             = Inr sims
         \<and> length sims = length (with_embedding embs candidates)
         \<and> idxs = take (nat limit) (filter (\<lambda>i. min_similarity \<le> sims ! i) (rev (argsort env sims)))
         \<and> results = map (\<lambda>i. (with_embedding embs candidates ! i, sims ! i)) idxs"
proof (cases "with_embedding embs candidates = []")
  case True
  then have "results = []" using assms
    by (auto simp: rank_candidates_def with_embedding_def Let_def split: if_splits)
  with True show ?thesis by (simp add: argsort_def)
next
  case False
  then have ne: "candidates \<noteq> []" by (auto simp: with_embedding_def)
  from False ne assms obtain sims where
    c: "cosine_similarity env q (map (\<lambda>inc. the (embs (id' inc))) (with_embedding embs candidates)) = Inr sims"
    and r: "results = collect_results sims (with_embedding embs candidates) limit (rev (argsort env sims)) []"
    by (auto simp: rank_candidates_def with_embedding_def Let_def split: sum.splits)
  from c have "length sims = length (with_embedding embs candidates)"
    by (auto dest: length_cosine_similarity)
  with c r show ?thesis by (simp add: collect_results_closed)
qed


lemma find_similar_rank:
  assumes "fst (find_similar env q limit filters s) = Inr results"
  shows "\<exists>candidates.
           fst (get_candidates env filters s) = Inr candidates
         \<and> rank_candidates env (embeddings (snd (get_candidates env filters s))) q limit candidates
             = Inr results"
  using assms
  by (cases "get_candidates env filters s")
     (auto simp: find_similar_def split: sum.splits)

text \<open>
  C2, amended. Every pair \<open>find_similar\<close> returns has a score of at least 0.7, the
  scores do not increase along the list, and the list has at most \<open>limit\<close> entries when
  \<open>limit\<close> is not negative and none when it is negative.
\<close>

text \<open>
  C2, amended. Every pair \<open>find_similar\<close> returns has a score of at least 0.7, the
  scores do not increase along the list, and the list has at most \<open>limit\<close> entries when
  \<open>limit\<close> is not negative and none when it is negative.
\<close>

theorem find_similar_threshold_order_limit:
  assumes "fst (find_similar env q limit filters s) = Inr results"
  shows "(\<forall>(inc, score) \<in> set results. 7 / 10 \<le> score)
       \<and> sorted_wrt (\<lambda>x y. x \<ge> y) (map snd results)
       \<and> int (length results) \<le> max 0 limit"
proof -
  from find_similar_rank [OF assms] obtain candidates where
    r: "rank_candidates env (embeddings (snd (get_candidates env filters s))) q limit candidates
          = Inr results"
    by blast
  let ?embs = "embeddings (snd (get_candidates env filters s))"
  from rank_candidates_shape [OF r] obtain sims idxs where
    idxs: "idxs = take (nat limit) (filter (\<lambda>i. min_similarity \<le> sims ! i) (rev (argsort env sims)))"
    and res: "results = map (\<lambda>i. (with_embedding ?embs candidates ! i, sims ! i)) idxs"
    by blast
  have thr: "\<forall>i \<in> set idxs. 7 / 10 \<le> sims ! i"
    unfolding idxs by (auto dest: in_set_takeD simp: min_similarity_def)
  have "sorted_wrt (\<lambda>a b. sims ! a \<le> sims ! b) (argsort env sims)"
    using argsort_lex [of sims env] by (rule sorted_wrt_mono_rel [rotated]) auto
  then have "sorted_wrt (\<lambda>a b. sims ! a \<ge> sims ! b) (rev (argsort env sims))"
    by (simp add: sorted_wrt_rev)
  then have ord: "sorted_wrt (\<lambda>a b. sims ! a \<ge> sims ! b) idxs"
    unfolding idxs by (intro sorted_wrt_take sorted_wrt_filter)
  have len: "length idxs \<le> nat limit" unfolding idxs by simp
  show ?thesis
  proof (intro conjI)
    show "\<forall>(inc, score) \<in> set results. 7 / 10 \<le> score"
      using thr by (auto simp: res)
    show "sorted_wrt (\<lambda>x y. x \<ge> y) (map snd results)"
      using ord by (simp add: res sorted_wrt_map comp_def)
    show "int (length results) \<le> max 0 limit"
      using len by (simp add: res)
  qed
qed

text \<open>
  C6, amended. The results are the candidates (those with an embedding, in retrieval
  order) at a list of positions along which the score decreases and, where two scores
  are equal, the rank \<open>np.argsort\<close> gave the position decreases: candidates of equal
  score come out in the reverse of the order in which \<open>np.argsort\<close> lists them. That
  order is NumPy's (the default sort kind is not stable) and is not fixed by the
  retrieval order: candidates of equal score can come out in their retrieval order or
  against it.
\<close>

theorem find_similar_ties_follow_argsort:
  assumes "fst (find_similar env q limit filters s) = Inr results"
  shows "\<exists>candidates sims idxs.
           fst (get_candidates env filters s) = Inr candidates
         \<and> cosine_similarity env q
              (map (\<lambda>inc. the (embeddings (snd (get_candidates env filters s)) (id' inc)))
                 (with_embedding (embeddings (snd (get_candidates env filters s))) candidates))
             = Inr sims
         \<and> results =
             map (\<lambda>i. (with_embedding (embeddings (snd (get_candidates env filters s))) candidates ! i,
                       sims ! i)) idxs
         \<and> (\<forall>i \<in> set idxs.
               i < length (with_embedding (embeddings (snd (get_candidates env filters s))) candidates))
         \<and> sorted_wrt
               (\<lambda>i j. sims ! j < sims ! i
                  \<or> (sims ! i = sims ! j
                      \<and> (argsort_ties env sims j < argsort_ties env sims i
                          \<or> (argsort_ties env sims j = argsort_ties env sims i \<and> j < i))))
               idxs"
proof -
  let ?embs = "embeddings (snd (get_candidates env filters s))"
  let ?R = "\<lambda>i j. sims ! j < sims ! i
                  \<or> (sims ! i = sims ! j
                      \<and> (argsort_ties env sims j < argsort_ties env sims i
                          \<or> (argsort_ties env sims j = argsort_ties env sims i \<and> j < i)))"
  from find_similar_rank [OF assms] obtain candidates where
    c: "fst (get_candidates env filters s) = Inr candidates"
    and r: "rank_candidates env ?embs q limit candidates = Inr results"
    by blast
  from rank_candidates_shape [OF r] obtain sims idxs where
    cs: "cosine_similarity env q (map (\<lambda>inc. the (?embs (id' inc))) (with_embedding ?embs candidates))
           = Inr sims"
    and len: "length sims = length (with_embedding ?embs candidates)"
    and idxs: "idxs = take (nat limit) (filter (\<lambda>i. min_similarity \<le> sims ! i) (rev (argsort env sims)))"
    and res: "results = map (\<lambda>i. (with_embedding ?embs candidates ! i, sims ! i)) idxs"
    by blast
  have bound: "\<forall>i \<in> set idxs. i < length (with_embedding ?embs candidates)"
    unfolding idxs using len by (auto dest!: in_set_takeD simp: set_argsort)
  have "sorted_wrt
          (\<lambda>i j. sims ! j < sims ! i
             \<or> (sims ! i = sims ! j
                 \<and> (argsort_ties env sims j < argsort_ties env sims i
                     \<or> (argsort_ties env sims j = argsort_ties env sims i \<and> j < i))))
          (rev (argsort env sims))"
    unfolding sorted_wrt_rev
    using argsort_lex [of sims env] by (rule sorted_wrt_mono_rel [rotated]) auto
  then have ord: "sorted_wrt
          (\<lambda>i j. sims ! j < sims ! i
             \<or> (sims ! i = sims ! j
                 \<and> (argsort_ties env sims j < argsort_ties env sims i
                     \<or> (argsort_ties env sims j = argsort_ties env sims i \<and> j < i))))
          idxs"
    unfolding idxs by (intro sorted_wrt_take sorted_wrt_filter)
  from c cs res bound ord show ?thesis by blast
qed

text \<open>
  C2, as the claim states it, fails for a negative limit: the empty list returned for
  the limit -1 is longer than the limit.
\<close>

theorem find_similar_negative_limit_counterexample:
  "fst (find_similar demo_env [1, 0] (- 1) resolved_only demo_state) = Inr []
   \<and> \<not> int (length ([] :: (IncidentResponse \<times> real) list)) \<le> - 1"
proof -
  have "fst (find_similar demo_env [1, 0] (- 1) resolved_only demo_state) = Inr []"
    by code_simp
  then show ?thesis by simp
qed

theorem find_similar_threshold_order_limit_witness:
  "fst (find_similar demo_env [1, 0] 1 resolved_only demo_state) = Inr [(inc_b, 1)]
   \<and> 7 / 10 \<le> snd (inc_b, 1 :: real)
   \<and> sorted_wrt (\<lambda>x y. x \<ge> y) (map snd [(inc_b, 1 :: real)])
   \<and> int (length [(inc_b, 1 :: real)]) \<le> max 0 1"
proof -
  have h: "fst (find_similar demo_env [1, 0] 1 resolved_only demo_state) = Inr [(inc_b, 1)]"
    by code_simp
  from find_similar_threshold_order_limit [OF h] h show ?thesis by simp
qed

text \<open>
  C6, as the claim states it, fails: the candidates a and b are retrieved in this order
  and have the same score 1, \<open>np.argsort\<close> lists the two equal values in index order,
  and \<open>find_similar\<close> returns b before a.
\<close>

theorem find_similar_equal_scores_counterexample:
  "fst (get_candidates demo_env resolved_only demo_state) = Inr [inc_a, inc_b]
   \<and> cosine_similarity demo_env [1, 0] [[1, 0], [1, 0]] = Inr [1, 1]
   \<and> embeddings demo_state (id' inc_a) = Some [1, 0]
   \<and> embeddings demo_state (id' inc_b) = Some [1, 0]
   \<and> argsort demo_env [1, 1] = [0, 1]
   \<and> fst (find_similar demo_env [1, 0] 5 resolved_only demo_state) = Inr [(inc_b, 1), (inc_a, 1)]"
  by code_simp

theorem find_similar_ties_follow_argsort_witness:
  "fst (find_similar four_env [1, 0] 5 resolved_only four_state)
     = Inr [(inc_a, 1), (inc_b, 1), (inc_c, 4 / 5), (inc_d, 4 / 5)]
   \<and> argsort four_env [1, 1, 4 / 5, 4 / 5] = [3, 2, 1, 0]
   \<and> (\<exists>candidates sims idxs.
           fst (get_candidates four_env resolved_only four_state) = Inr candidates
         \<and> cosine_similarity four_env [1, 0]
              (map (\<lambda>inc. the (embeddings (snd (get_candidates four_env resolved_only four_state)) (id' inc)))
                 (with_embedding (embeddings (snd (get_candidates four_env resolved_only four_state))) candidates))
             = Inr sims
         \<and> [(inc_a, 1), (inc_b, 1), (inc_c, 4 / 5), (inc_d, 4 / 5)] =
             map (\<lambda>i. (with_embedding (embeddings (snd (get_candidates four_env resolved_only four_state))) candidates ! i,
                       sims ! i)) idxs
         \<and> (\<forall>i \<in> set idxs.
               i < length (with_embedding (embeddings (snd (get_candidates four_env resolved_only four_state))) candidates))
         \<and> sorted_wrt
               (\<lambda>i j. sims ! j < sims ! i
                  \<or> (sims ! i = sims ! j
                      \<and> (argsort_ties four_env sims j < argsort_ties four_env sims i
                          \<or> (argsort_ties four_env sims j = argsort_ties four_env sims i \<and> j < i))))
               idxs)"
proof -
  have h: "fst (find_similar four_env [1, 0] 5 resolved_only four_state)
     = Inr [(inc_a, 1), (inc_b, 1), (inc_c, 4 / 5), (inc_d, 4 / 5)]"
    by code_simp
  have a: "argsort four_env [1, 1, 4 / 5, 4 / 5] = [3, 2, 1, 0]"
    by code_simp
  from find_similar_ties_follow_argsort [OF h] h a show ?thesis by blast
qed

section \<open>Properties of the candidate cache\<close>

lemma remove_embedding_state:
  "remove_embedding incident_id s =
     (Inr (), s\<lparr>embeddings := (embeddings s)(incident_id := None),
               metadata := (metadata s)(incident_id := None),
               resolved_incidents_cache := None\<rparr>)"
  by (auto simp: remove_embedding_def pop_def fun_upd_idem split: option.splits)

lemma consistent_init: "consistent (init w)"
  by (simp add: consistent_def init_def)

lemma consistent_add_embedding: "consistent s \<Longrightarrow> consistent (add_embedding i e m s)"
  by (simp add: consistent_def add_embedding_def)

lemma consistent_remove_embedding: "consistent s \<Longrightarrow> consistent (snd (remove_embedding i s))"
  by (simp add: consistent_def remove_embedding_state)

lemma consistent_world: "consistent (s\<lparr>world := w\<rparr>) = consistent s"
  by (simp add: consistent_def)

lemma call_list_all_fields:
  "embeddings (snd (call_list_all env l st s)) = embeddings s"
  "metadata (snd (call_list_all env l st s)) = metadata s"
  "resolved_incidents_cache (snd (call_list_all env l st s)) = resolved_incidents_cache s"
  "cache_timestamp (snd (call_list_all env l st s)) = cache_timestamp s"
  "list_all_calls (snd (call_list_all env l st s)) = list_all_calls s @ [(l, st)]"
  "world (snd (call_list_all env l st s)) = snd (incident_repo_list_all env l st (world s))"
  "fst (call_list_all env l st s) = fst (incident_repo_list_all env l st (world s))"
  by (simp_all add: call_list_all_def split: prod.splits)

lemma get_resolved_incidents_maps:
  "embeddings (snd (get_resolved_incidents env s)) = embeddings s"
  "metadata (snd (get_resolved_incidents env s)) = metadata s"
  by (cases "call_list_all env 10000 ''resolved'' s";
      use call_list_all_fields(1,2) [of env 10000 "''resolved''" s] in
        \<open>auto simp: get_resolved_incidents_def Let_def split: sum.splits\<close>)+

lemma find_similar_snd:
  "snd (find_similar env q limit filters s) = snd (get_candidates env filters s)"
  by (cases "get_candidates env filters s") (auto simp: find_similar_def split: sum.splits)

lemma get_candidates_maps:
  "embeddings (snd (get_candidates env filters s)) = embeddings s"
  "metadata (snd (get_candidates env filters s)) = metadata s"
  by (cases "call_list_all env 10000 (status_filter_of filters) s";
      use call_list_all_fields(1,2) [of env 10000 "status_filter_of filters" s] in
        \<open>auto simp: get_candidates_def get_resolved_incidents_maps Let_def split: sum.splits\<close>)+

lemma consistent_find_similar:
  "consistent s \<Longrightarrow> consistent (snd (find_similar env q limit filters s))"
  by (simp add: consistent_def find_similar_snd get_candidates_maps)


lemma get_resolved_incidents_cached:
  assumes "resolved_incidents_cache s = Some cached" and "cache_timestamp s = Some t0"
    and "datetime_now env (world s) - t0 < cache_ttl"
  shows "get_resolved_incidents env s = (Inr cached, s)"
  using assms by (simp add: get_resolved_incidents_def)

lemma get_resolved_incidents_refetch:
  assumes "resolved_incidents_cache s = None \<or> cache_timestamp s = None
           \<or> cache_ttl \<le> datetime_now env (world s) - the (cache_timestamp s)"
  shows "list_all_calls (snd (get_resolved_incidents env s))
         = list_all_calls s @ [(10000, ''resolved'')]"
proof -
  have "\<not> (resolved_incidents_cache s \<noteq> None \<and> cache_timestamp s \<noteq> None
         \<and> datetime_now env (world s) - the (cache_timestamp s) < cache_ttl)"
    using assms by auto
  then show ?thesis
    using call_list_all_fields(5) [of env 10000 "''resolved''" s]
    by (cases "call_list_all env 10000 ''resolved'' s")
       (auto simp: get_resolved_incidents_def Let_def split: sum.splits)
qed

lemma get_resolved_incidents_capture:
  assumes "list_all_calls (snd (get_resolved_incidents env s)) \<noteq> list_all_calls s"
    and "fst (get_resolved_incidents env s) = Inr candidates"
  shows "resolved_incidents_cache (snd (get_resolved_incidents env s)) = Some candidates
       \<and> cache_timestamp (snd (get_resolved_incidents env s))
           = Some (datetime_now env (world (snd (get_resolved_incidents env s))))"
proof -
  have nv: "\<not> (resolved_incidents_cache s \<noteq> None \<and> cache_timestamp s \<noteq> None
         \<and> datetime_now env (world s) - the (cache_timestamp s) < cache_ttl)"
    using assms(1) by (auto simp: get_resolved_incidents_def)
  show ?thesis
    using assms(2) nv
    by (cases "call_list_all env 10000 ''resolved'' s")
       (auto simp: get_resolved_incidents_def Let_def split: sum.splits)
qed

lemma get_candidates_resolved:
  "status_filter_of filters = ''resolved'' \<Longrightarrow>
   get_candidates env filters s = get_resolved_incidents env s"
  by (simp add: get_candidates_def)

text \<open>
  C3, amended. For a search with the status filter resolved: when a candidate list is
  cached and the clock reads less than 5 minutes more than the time it was captured at,
  the incident store is not called, the cached list is the candidate list, and the
  capture time stays; when 5 minutes or more have passed since the capture, the store is
  called once, for up to 10000 resolved incidents; after \<open>add_embedding\<close> or
  \<open>remove_embedding\<close> the next search calls the store, whatever the clock reads; and a
  search that called the store and got a candidate list has cached it with the time read
  after the call.
\<close>

theorem candidate_cache_reuse_and_refetch:
  assumes "status_filter_of filters = ''resolved''"
  shows "cache_ttl = 5 * 60 * 1000000
     \<and> (resolved_incidents_cache s = Some cached \<and> cache_timestamp s = Some t0
          \<and> datetime_now env (world s) - t0 < cache_ttl
        \<longrightarrow> list_all_calls (snd (find_similar env q limit filters s)) = list_all_calls s
          \<and> fst (get_candidates env filters s) = Inr cached
          \<and> resolved_incidents_cache (snd (find_similar env q limit filters s)) = Some cached
          \<and> cache_timestamp (snd (find_similar env q limit filters s)) = Some t0)
     \<and> (cache_timestamp s = Some t0 \<and> cache_ttl \<le> datetime_now env (world s) - t0
        \<longrightarrow> list_all_calls (snd (find_similar env q limit filters s))
            = list_all_calls s @ [(10000, ''resolved'')])
     \<and> list_all_calls (snd (find_similar env q limit filters
            ((add_embedding incident_id emb md s)\<lparr>world := w\<rparr>)))
         = list_all_calls s @ [(10000, ''resolved'')]
     \<and> list_all_calls (snd (find_similar env q limit filters
            ((snd (remove_embedding incident_id s))\<lparr>world := w\<rparr>)))
         = list_all_calls s @ [(10000, ''resolved'')]
     \<and> (list_all_calls (snd (find_similar env q limit filters s)) \<noteq> list_all_calls s
          \<and> fst (get_candidates env filters s) = Inr candidates
        \<longrightarrow> resolved_incidents_cache (snd (find_similar env q limit filters s)) = Some candidates
          \<and> cache_timestamp (snd (find_similar env q limit filters s))
              = Some (datetime_now env (world (snd (find_similar env q limit filters s)))))"
proof -
  note r = find_similar_snd get_candidates_resolved [OF assms]
  have a: "resolved_incidents_cache s = Some cached \<and> cache_timestamp s = Some t0
          \<and> datetime_now env (world s) - t0 < cache_ttl
        \<longrightarrow> list_all_calls (snd (find_similar env q limit filters s)) = list_all_calls s
          \<and> fst (get_candidates env filters s) = Inr cached
          \<and> resolved_incidents_cache (snd (find_similar env q limit filters s)) = Some cached
          \<and> cache_timestamp (snd (find_similar env q limit filters s)) = Some t0"
    by (auto simp: r get_resolved_incidents_cached)
  have b: "cache_timestamp s = Some t0 \<and> cache_ttl \<le> datetime_now env (world s) - t0
        \<longrightarrow> list_all_calls (snd (find_similar env q limit filters s))
            = list_all_calls s @ [(10000, ''resolved'')]"
    by (auto simp: r intro!: get_resolved_incidents_refetch)
  have c: "list_all_calls (snd (find_similar env q limit filters
            ((add_embedding incident_id emb md s)\<lparr>world := w\<rparr>)))
         = list_all_calls s @ [(10000, ''resolved'')]"
    unfolding r
    by (subst get_resolved_incidents_refetch) (simp_all add: add_embedding_def)
  have d: "list_all_calls (snd (find_similar env q limit filters
            ((snd (remove_embedding incident_id s))\<lparr>world := w\<rparr>)))
         = list_all_calls s @ [(10000, ''resolved'')]"
    unfolding r
    by (subst get_resolved_incidents_refetch) (simp_all add: remove_embedding_state)
  have e: "list_all_calls (snd (find_similar env q limit filters s)) \<noteq> list_all_calls s
          \<and> fst (get_candidates env filters s) = Inr candidates
        \<longrightarrow> resolved_incidents_cache (snd (find_similar env q limit filters s)) = Some candidates
          \<and> cache_timestamp (snd (find_similar env q limit filters s))
              = Some (datetime_now env (world (snd (find_similar env q limit filters s))))"
    unfolding r using get_resolved_incidents_capture [of env s candidates] by blast
  have t: "cache_ttl = 5 * 60 * 1000000" by (simp add: cache_ttl_def)
  from t a b c d e show ?thesis by blast
qed

text \<open>
  C10. Removing an identifier that has no embedding raises nothing, leaves both
  dictionaries as they are and calls nothing, and still empties the cache: the next
  search for resolved incidents calls the incident store.
\<close>

theorem remove_absent_embedding:
  assumes "consistent s" and "embeddings s incident_id = None"
    and "status_filter_of filters = ''resolved''"
  shows "fst (remove_embedding incident_id s) = Inr ()
     \<and> embeddings (snd (remove_embedding incident_id s)) = embeddings s
     \<and> metadata (snd (remove_embedding incident_id s)) = metadata s
     \<and> list_all_calls (snd (remove_embedding incident_id s)) = list_all_calls s
     \<and> resolved_incidents_cache (snd (remove_embedding incident_id s)) = None
     \<and> list_all_calls (snd (find_similar env q limit filters
            ((snd (remove_embedding incident_id s))\<lparr>world := w\<rparr>)))
         = list_all_calls s @ [(10000, ''resolved'')]"
proof -
  from assms(1,2) have m: "metadata s incident_id = None"
    unfolding consistent_def by (metis domIff)
  have f: "list_all_calls (snd (find_similar env q limit filters
            ((snd (remove_embedding incident_id s))\<lparr>world := w\<rparr>)))
         = list_all_calls s @ [(10000, ''resolved'')]"
    unfolding find_similar_snd get_candidates_resolved [OF assms(3)]
    by (subst get_resolved_incidents_refetch) (simp_all add: remove_embedding_state)
  show ?thesis
    using assms(2) m f by (simp add: remove_embedding_state fun_upd_idem)
qed


text \<open>
  C3, as the claim states it, fails: the second and the third search are 4 minutes apart
  with nothing added or removed in between, and the third calls the incident store
  again, the list cached by the first search being 8 minutes old.
\<close>

theorem candidate_cache_window_counterexample:
  "minutes 8 - minutes 4 < cache_ttl
   \<and> list_all_calls after_first_call = [(10000, ''resolved'')]
   \<and> list_all_calls after_second_call = [(10000, ''resolved'')]
   \<and> list_all_calls after_third_call = [(10000, ''resolved''), (10000, ''resolved'')]"
  by code_simp

theorem candidate_cache_reuse_and_refetch_witness:
  "status_filter_of resolved_only = ''resolved''
   \<and> resolved_incidents_cache after_first_call = Some [inc_a, inc_b]
   \<and> cache_timestamp after_first_call = Some 0
   \<and> minutes 4 - 0 < cache_ttl
   \<and> list_all_calls after_second_call = list_all_calls after_first_call
   \<and> cache_timestamp after_second_call = Some 0
   \<and> cache_ttl \<le> minutes 8 - 0
   \<and> list_all_calls after_third_call = list_all_calls after_second_call @ [(10000, ''resolved'')]
   \<and> list_all_calls (snd (find_similar demo_env [1, 0] 5 resolved_only
          ((add_embedding ''c'' [0, 1] [] after_first_call)\<lparr>world := minutes 1\<rparr>)))
       = list_all_calls after_first_call @ [(10000, ''resolved'')]
   \<and> list_all_calls (snd (find_similar demo_env [1, 0] 5 resolved_only
          ((snd (remove_embedding ''a'' after_first_call))\<lparr>world := minutes 1\<rparr>)))
       = list_all_calls after_first_call @ [(10000, ''resolved'')]"
proof -
  have h0: "status_filter_of resolved_only = ''resolved''" by code_simp
  have c1: "resolved_incidents_cache after_first_call = Some [inc_a, inc_b]" by code_simp
  have t1: "cache_timestamp after_first_call = Some 0" by code_simp
  have a1: "minutes 4 - 0 < cache_ttl" by code_simp
  have a2: "cache_ttl \<le> minutes 8 - 0" by code_simp
  have now: "\<And>w. datetime_now demo_env w = w"
    by (simp add: demo_env_def)
  note T = candidate_cache_reuse_and_refetch [OF h0, where env = demo_env and q = "[1, 0]"
      and limit = 5]
  have second: "list_all_calls after_second_call = list_all_calls after_first_call
      \<and> cache_timestamp after_second_call = Some 0"
    using T [where s = "after_first_call\<lparr>world := minutes 4\<rparr>" and cached = "[inc_a, inc_b]"
        and ?t0.0 = 0] c1 t1 a1
    by (simp add: now after_second_call_def)
  then have third: "list_all_calls after_third_call
      = list_all_calls after_second_call @ [(10000, ''resolved'')]"
    using T [where s = "after_second_call\<lparr>world := minutes 8\<rparr>" and ?t0.0 = 0] a2
    by (simp add: now after_third_call_def)
  have added: "list_all_calls (snd (find_similar demo_env [1, 0] 5 resolved_only
          ((add_embedding ''c'' [0, 1] [] after_first_call)\<lparr>world := minutes 1\<rparr>)))
       = list_all_calls after_first_call @ [(10000, ''resolved'')]"
    using T [where s = after_first_call and incident_id = "''c''" and emb = "[0, 1]"
        and md = "[]" and w = "minutes 1"]
    by blast
  have removed: "list_all_calls (snd (find_similar demo_env [1, 0] 5 resolved_only
          ((snd (remove_embedding ''a'' after_first_call))\<lparr>world := minutes 1\<rparr>)))
       = list_all_calls after_first_call @ [(10000, ''resolved'')]"
    using T [where s = after_first_call and incident_id = "''a''" and w = "minutes 1"]
    by blast
  from h0 c1 t1 a1 a2 second third added removed show ?thesis by blast
qed

lemma consistent_after_first_call: "consistent after_first_call"
  unfolding after_first_call_def demo_state_def
  by (intro consistent_find_similar consistent_add_embedding consistent_init)

theorem remove_absent_embedding_witness:
  "consistent after_first_call
   \<and> embeddings after_first_call ''zzz'' = None
   \<and> status_filter_of resolved_only = ''resolved''
   \<and> resolved_incidents_cache after_first_call = Some [inc_a, inc_b]
   \<and> list_all_calls after_first_call = [(10000, ''resolved'')]
   \<and> fst (remove_embedding ''zzz'' after_first_call) = Inr ()
   \<and> embeddings (snd (remove_embedding ''zzz'' after_first_call)) = embeddings after_first_call
   \<and> metadata (snd (remove_embedding ''zzz'' after_first_call)) = metadata after_first_call
   \<and> resolved_incidents_cache (snd (remove_embedding ''zzz'' after_first_call)) = None
   \<and> list_all_calls (snd (find_similar demo_env [1, 0] 5 resolved_only
          ((snd (remove_embedding ''zzz'' after_first_call))\<lparr>world := minutes 1\<rparr>)))
       = [(10000, ''resolved''), (10000, ''resolved'')]"
proof -
  have h0: "status_filter_of resolved_only = ''resolved''" by code_simp
  have e: "embeddings after_first_call ''zzz'' = None" by code_simp
  have c1: "resolved_incidents_cache after_first_call = Some [inc_a, inc_b]" by code_simp
  have l1: "list_all_calls after_first_call = [(10000, ''resolved'')]" by code_simp
  from remove_absent_embedding [OF consistent_after_first_call e h0,
      where env = demo_env and q = "[1, 0]" and limit = 5 and w = "minutes 1"]
    consistent_after_first_call e h0 c1 l1
  show ?thesis by simp
qed

section \<open>Properties of the routing decision and of the entry point\<close>

lemma should_use_rag_cases:
  "(rag_force_all env \<or> category rule_result = UNKNOWN \<or> length (description incident) < 50
      \<longrightarrow> should_use_rag env incident rule_result s = (Inr True, s))
   \<and> (\<not> rag_force_all env \<and> category rule_result \<noteq> UNKNOWN
        \<and> 50 \<le> length (description incident)
        \<and> fst (generate_incident_embedding env (title incident) (description incident) s) = Inl e
      \<longrightarrow> fst (should_use_rag env incident rule_result s) = Inr False)
   \<and> (\<not> rag_force_all env \<and> category rule_result \<noteq> UNKNOWN
        \<and> 50 \<le> length (description incident)
        \<and> fst (generate_incident_embedding env (title incident) (description incident) s) = Inr q
        \<and> fst (find_similar env q 1 (Some [(''status'', ''resolved'')])
                 (snd (generate_incident_embedding env (title incident) (description incident) s)))
            = Inl e
      \<longrightarrow> fst (should_use_rag env incident rule_result s) = Inr False)
   \<and> (\<not> rag_force_all env \<and> category rule_result \<noteq> UNKNOWN
        \<and> 50 \<le> length (description incident)
        \<and> fst (generate_incident_embedding env (title incident) (description incident) s) = Inr q
        \<and> fst (find_similar env q 1 (Some [(''status'', ''resolved'')])
                 (snd (generate_incident_embedding env (title incident) (description incident) s)))
            = Inr similar
      \<longrightarrow> fst (should_use_rag env incident rule_result s) = Inr (similar \<noteq> []))"
  by (cases "generate_incident_embedding env (title incident) (description incident) s";
      cases "find_similar env q 1 (Some [(''status'', ''resolved'')])
                 (snd (generate_incident_embedding env (title incident) (description incident) s))")
     (auto simp: should_use_rag_def split: sum.splits)

lemma should_use_rag_total:
  "\<exists>b. fst (should_use_rag env incident rule_result s) = Inr b"
  by (auto simp: should_use_rag_def split: sum.splits prod.splits)


text \<open>
  C4. The routing decision is true exactly when the force-all flag is set, or the rule
  category is Unknown, or the description has fewer than 50 characters, or the trial
  lookup (the embedding of the incident, then \<open>find_similar\<close> with limit 1 over resolved
  incidents) succeeds and returns a neighbour. The first three are tested first and
  then nothing is looked up (the state is as before). When the embedding or the lookup
  raises, the decision is false.
\<close>

theorem should_use_rag_first_match:
  "fst (should_use_rag env incident rule_result s) =
     Inr (rag_force_all env \<or> category rule_result = UNKNOWN
          \<or> length (description incident) < 50
          \<or> (\<exists>q similar.
                fst (generate_incident_embedding env (title incident) (description incident) s)
                  = Inr q
              \<and> fst (find_similar env q 1 (Some [(''status'', ''resolved'')])
                       (snd (generate_incident_embedding env (title incident)
                              (description incident) s))) = Inr similar
              \<and> similar \<noteq> []))
   \<and> (rag_force_all env \<or> category rule_result = UNKNOWN \<or> length (description incident) < 50
      \<longrightarrow> should_use_rag env incident rule_result s = (Inr True, s))
   \<and> (\<not> rag_force_all env \<and> category rule_result \<noteq> UNKNOWN
        \<and> 50 \<le> length (description incident)
        \<and> fst (generate_incident_embedding env (title incident) (description incident) s) = Inl e
      \<longrightarrow> fst (should_use_rag env incident rule_result s) = Inr False)
   \<and> (\<not> rag_force_all env \<and> category rule_result \<noteq> UNKNOWN
        \<and> 50 \<le> length (description incident)
        \<and> fst (generate_incident_embedding env (title incident) (description incident) s) = Inr q'
        \<and> fst (find_similar env q' 1 (Some [(''status'', ''resolved'')])
                 (snd (generate_incident_embedding env (title incident) (description incident) s)))
            = Inl e
      \<longrightarrow> fst (should_use_rag env incident rule_result s) = Inr False)"
proof -
  let ?g = "generate_incident_embedding env (title incident) (description incident) s"
  have main: "fst (should_use_rag env incident rule_result s) =
     Inr (rag_force_all env \<or> category rule_result = UNKNOWN
          \<or> length (description incident) < 50
          \<or> (\<exists>q similar. fst ?g = Inr q
              \<and> fst (find_similar env q 1 (Some [(''status'', ''resolved'')]) (snd ?g)) = Inr similar
              \<and> similar \<noteq> []))"
  proof (cases "rag_force_all env \<or> category rule_result = UNKNOWN
      \<or> length (description incident) < 50")
    case True
    then show ?thesis using should_use_rag_cases [of env rule_result incident s] by auto
  next
    case False
    then have pre: "\<not> rag_force_all env" "category rule_result \<noteq> UNKNOWN"
      "50 \<le> length (description incident)" by auto
    show ?thesis
    proof (cases "fst ?g")
      case (Inl e)
      with pre False show ?thesis
        using should_use_rag_cases [of env rule_result incident s e] by auto
    next
      case (Inr q)
      show ?thesis
      proof (cases "fst (find_similar env q 1 (Some [(''status'', ''resolved'')]) (snd ?g))")
        case (Inl e)
        with pre False Inr show ?thesis
          using should_use_rag_cases [of env rule_result incident s e q] by auto
      next
        case sim: (Inr similar)
        with pre False Inr show ?thesis
          using should_use_rag_cases [of env rule_result incident s _ q similar] by auto
      qed
    qed
  qed
  from main should_use_rag_cases [of env rule_result incident s e q']
  show ?thesis by blast
qed

theorem should_use_rag_first_match_witness:
  "should_use_rag (demo_env\<lparr>rag_force_all := True\<rparr>) api_login_incident
       (enrich_rule_based api_login_incident) demo_state = (Inr True, demo_state)
   \<and> category (enrich_rule_based printer_incident) = UNKNOWN
   \<and> should_use_rag demo_env printer_incident (enrich_rule_based printer_incident) demo_state
       = (Inr True, demo_state)
   \<and> length (description short_incident) < 50
   \<and> should_use_rag demo_env short_incident (enrich_rule_based short_incident) demo_state
       = (Inr True, demo_state)
   \<and> \<not> rag_force_all demo_env
   \<and> category (enrich_rule_based api_login_incident) \<noteq> UNKNOWN
   \<and> 50 \<le> length (description api_login_incident)
   \<and> fst (find_similar demo_env [1, 0] 1 (Some [(''status'', ''resolved'')]) demo_state)
       = Inr [(inc_b, 1)]
   \<and> fst (should_use_rag demo_env api_login_incident
            (enrich_rule_based api_login_incident) demo_state) = Inr True
   \<and> fst (generate_incident_embedding (demo_env\<lparr>embedding_client := None\<rparr>)
            (title api_login_incident) (description api_login_incident) demo_state)
       = Inl (RuntimeError ''OpenAI client not initialized. Check OPENAI_API_KEY.'')
   \<and> fst (should_use_rag (demo_env\<lparr>embedding_client := None\<rparr>) api_login_incident
            (enrich_rule_based api_login_incident) demo_state) = Inr False
   \<and> fst (find_similar (demo_env\<lparr>embedding_client := Some (\<lambda>txt w. (Inr [1, 0, 0], w))\<rparr>)
            [1, 0, 0] 1 (Some [(''status'', ''resolved'')]) demo_state)
       = Inl (ValueError ''Incompatible dimension'')
   \<and> fst (should_use_rag (demo_env\<lparr>embedding_client := Some (\<lambda>txt w. (Inr [1, 0, 0], w))\<rparr>)
            api_login_incident (enrich_rule_based api_login_incident) demo_state) = Inr False"
proof -
  let ?rr = "enrich_rule_based api_login_incident"
  let ?none = "demo_env\<lparr>embedding_client := None\<rparr>"
  let ?bad = "demo_env\<lparr>embedding_client := Some (\<lambda>txt w. (Inr [1, 0, 0], w))\<rparr>"
  have f: "rag_force_all (demo_env\<lparr>rag_force_all := True\<rparr>)" by simp
  have u: "category (enrich_rule_based printer_incident) = UNKNOWN" by code_simp
  have sh: "length (description short_incident) < 50" by code_simp
  have nf: "\<not> rag_force_all demo_env" "\<not> rag_force_all ?none" "\<not> rag_force_all ?bad"
    by (simp_all add: demo_env_def)
  have k: "category ?rr \<noteq> UNKNOWN" by code_simp
  have lg: "50 \<le> length (description api_login_incident)" by code_simp
  have g: "fst (generate_incident_embedding demo_env (title api_login_incident)
              (description api_login_incident) demo_state) = Inr [1, 0]"
    by code_simp
  have gs: "snd (generate_incident_embedding demo_env (title api_login_incident)
              (description api_login_incident) demo_state) = demo_state"
    by (simp add: generate_incident_embedding_def generate_embedding_def demo_env_def
        demo_state_def add_embedding_def init_def)
  have fs: "fst (find_similar demo_env [1, 0] 1 (Some [(''status'', ''resolved'')]) demo_state)
       = Inr [(inc_b, 1)]"
    by code_simp
  have gn: "fst (generate_incident_embedding ?none (title api_login_incident)
              (description api_login_incident) demo_state)
       = Inl (RuntimeError ''OpenAI client not initialized. Check OPENAI_API_KEY.'')"
    by code_simp
  have gb: "fst (generate_incident_embedding ?bad (title api_login_incident)
              (description api_login_incident) demo_state) = Inr [1, 0, 0]"
    by code_simp
  have gbs: "snd (generate_incident_embedding ?bad (title api_login_incident)
              (description api_login_incident) demo_state) = demo_state"
    by (simp add: generate_incident_embedding_def generate_embedding_def demo_env_def
        demo_state_def add_embedding_def init_def)
  have fb: "fst (find_similar ?bad [1, 0, 0] 1 (Some [(''status'', ''resolved'')]) demo_state)
       = Inl (ValueError ''Incompatible dimension'')"
    by code_simp
  have w1: "should_use_rag (demo_env\<lparr>rag_force_all := True\<rparr>) api_login_incident ?rr demo_state
      = (Inr True, demo_state)"
    using should_use_rag_first_match [of "demo_env\<lparr>rag_force_all := True\<rparr>"
        api_login_incident ?rr demo_state] f by blast
  have w2: "should_use_rag demo_env printer_incident (enrich_rule_based printer_incident)
      demo_state = (Inr True, demo_state)"
    using should_use_rag_first_match [of demo_env printer_incident
        "enrich_rule_based printer_incident" demo_state] u by blast
  have w3: "should_use_rag demo_env short_incident (enrich_rule_based short_incident)
      demo_state = (Inr True, demo_state)"
    using should_use_rag_first_match [of demo_env short_incident
        "enrich_rule_based short_incident" demo_state] sh by blast
  have w4: "fst (should_use_rag demo_env api_login_incident ?rr demo_state) = Inr True"
    using should_use_rag_first_match [of demo_env api_login_incident ?rr demo_state]
      g gs fs by auto
  have w5: "fst (should_use_rag ?none api_login_incident ?rr demo_state) = Inr False"
    using should_use_rag_first_match [of ?none api_login_incident ?rr demo_state
        "RuntimeError ''OpenAI client not initialized. Check OPENAI_API_KEY.''"]
      nf k lg gn by blast
  have w6: "fst (should_use_rag ?bad api_login_incident ?rr demo_state) = Inr False"
    using should_use_rag_first_match [of ?bad api_login_incident ?rr demo_state
        "ValueError ''Incompatible dimension''" "[1, 0, 0]"]
      nf k lg gb gbs fb by simp
  from w1 u w2 sh w3 nf(1) k lg fs w4 gn w5 fb w6 show ?thesis by blast
qed


lemma enrich_incident_handler:
  assumes "should_use_rag env incident (enrich_rule_based incident) s = (Inr True, s1)"
    and "enrich_with_rag env incident (enrich_rule_based incident) s1 = (Inl e, s2)"
  shows "fst (enrich_incident env incident s) =
     (case fst (print env
                  (''RAG enrichment failed: '' @ str_of e @ ''. Falling back to rule-based.'')
                  (world s2)) of
        Inl e' \<Rightarrow> Inl e'
      | Inr u \<Rightarrow> Inr (with_method (enrich_rule_based incident) ''rule_based_fallback''))"
  using assms
  by (auto simp: enrich_incident_def Let_def split: sum.splits prod.splits)

lemma enrich_incident_raises_only_print:
  assumes "fst (enrich_incident env incident s) = Inl e'"
  shows "\<exists>message w. fst (print env message w) = Inl e'"
proof -
  let ?rr = "enrich_rule_based incident"
  obtain b s1 where u: "should_use_rag env incident ?rr s = (Inr b, s1)"
    using should_use_rag_total [of env incident ?rr s]
    by (cases "should_use_rag env incident ?rr s") auto
  obtain x s2 where w: "enrich_with_rag env incident ?rr s1 = (x, s2)"
    by (cases "enrich_with_rag env incident ?rr s1")
  show ?thesis
  proof (cases b)
    case False
    with assms u show ?thesis by (simp add: enrich_incident_def Let_def)
  next
    case True
    show ?thesis
    proof (cases x)
      case (Inr r)
      with assms u w True show ?thesis by (simp add: enrich_incident_def Let_def)
    next
      case (Inl e)
      from enrich_incident_handler [of env incident s s1 e s2] u w True Inl assms
      show ?thesis by (auto split: sum.splits)
    qed
  qed
qed

text \<open>
  C1. \<open>enrich_incident\<close> can raise: the message the handler prints before it returns
  the fallback is printed outside every \<open>try\<close> block. Here the incident has the rule
  category Unknown, so that the routing decision is to escalate; no embedding client is
  there, so that the retrieval path raises \<open>RuntimeError\<close>; and the standard output is
  closed, so that \<open>print\<close> raises \<open>ValueError\<close>, which \<open>enrich_incident\<close> raises in place
  of returning the rule result with the method \<open>rule_based_fallback\<close>. (By the two
  lemmas above nothing but that \<open>print\<close> makes \<open>enrich_incident\<close> raise, and when it
  succeeds the fallback is returned.)
\<close>

theorem enrich_incident_raises_when_print_raises:
  "category (enrich_rule_based printer_incident) = UNKNOWN
   \<and> fst (should_use_rag closed_stdout_env printer_incident
            (enrich_rule_based printer_incident) demo_state) = Inr True
   \<and> fst (enrich_with_rag closed_stdout_env printer_incident
            (enrich_rule_based printer_incident) demo_state)
       = Inl (RuntimeError ''OpenAI client not initialized. Check OPENAI_API_KEY.'')
   \<and> fst (enrich_incident closed_stdout_env printer_incident demo_state)
       = Inl (ValueError ''I/O operation on closed file.'')
   \<and> fst (enrich_incident (closed_stdout_env\<lparr>print := print demo_env\<rparr>)
            printer_incident demo_state)
       = Inr (with_method (enrich_rule_based printer_incident) ''rule_based_fallback'')"
  by code_simp

end
